theory Spec2Isabelle
  imports Main "HOL-Library.AList" "HOL-Library.Char_ord" "HOL-Library.List_Lexorder"
begin

section \<open>The providers manager of airflow/providers_manager.py\<close>

text \<open>
  The manager's dictionaries are association lists in insertion order (a Python dict
  enumerates in insertion order, and the accessors' enumeration order is observable).
  Strings are compared as Python compares them, character by character. Exceptions are
  values; a procedure that can raise returns the exception (if any) together with the
  manager as the exception left it, since every mutation made before the raise stays.
\<close>

subsection \<open>Exceptions and log records\<close>

datatype exn =
    ImportError
  | ValueError
  | AttributeError
  | KeyError string
  | IndexError
  | OSError
  | YAMLError
  | ValidationError
  | PackageMismatch string string
  | RuntimeError

datatype field_class = IntegerField | PasswordField | StringField | BooleanField | OtherField string

datatype message =
    Initializing string
  | InitializationTook string
  | LoadingFromPackage string
  | PackageAlreadyRegistered string
  | NoProvidersInstalled
  | LoadingFromPath string string
  | PathAlreadyRegistered string
  | ErrorWhenLoading string exn
  | SanityCheckFailed string string string
  | ExceptionWhenImporting string string exn
  | HookAlreadyRegistered string
  | UnsupportedFieldClass string field_class
  | MissingAttribute string string
  | FieldWithoutPrefix string string
  | FieldAlreadyAdded string string
  | ConnectionTypeAlreadyAdded string string string
  | ErrorLoadingCustomizedFields string string exn

datatype log_record = Debug message | Info message | Warning message

subsection \<open>Strings and paths\<close>

definition startswith :: "string \<Rightarrow> string \<Rightarrow> bool" where
  "startswith s p = (take (length p) s = p)"

definition replace :: "char \<Rightarrow> char \<Rightarrow> string \<Rightarrow> string" where
  "replace old new s = map (\<lambda>c. if c = old then new else c) s"

definition sep :: char where
  "sep = CHR ''/''"

text \<open>\<open>os.path.join\<close> of POSIX, for two components.\<close>

definition path_join :: "string \<Rightarrow> string \<Rightarrow> string" where
  "path_join a b =
     (if startswith b [sep] then b
      else if a = [] \<or> last a = sep then a @ b
      else a @ [sep] @ b)"

text \<open>\<open>hook_class_name.rsplit('.', maxsplit=1)\<close> unpacked into two names: \<open>None\<close> is the
  \<open>ValueError\<close> of the unpacking when the name holds no dot.\<close>

definition rsplit_dot :: "string \<Rightarrow> (string \<times> string) option" where
  "rsplit_dot s =
     (if CHR ''.'' \<in> set s
      then Some (rev (tl (dropWhile (\<lambda>c. c \<noteq> CHR ''.'') (rev s))),
                 rev (takeWhile (\<lambda>c. c \<noteq> CHR ''.'') (rev s)))
      else None)"

subsection \<open>Data model\<close>

text \<open>The \<open>provider_info\<close> dictionary: each key the code reads, \<open>None\<close> when absent.\<close>

record manifest =
  package_name :: "string option"
  versions :: "string list option"
  hook_class_names :: "string list option"
  extra_links :: "string list option"
  logging :: "string list option"
  secrets_backends :: "string list option"
  auth_backends :: "string list option"

datatype ProviderInfo = ProviderInfo (version: string) (provider_info: manifest)

datatype HookInfo = HookInfo string string string string

datatype field = Field (field_class: field_class) (label: string)

datatype ConnectionFormWidgetInfo = ConnectionFormWidgetInfo string string field

datatype json = JString string | JArray "json list" | JObject "(string \<times> json) list"

type_synonym behaviour = "(string \<times> json) list"

text \<open>A hook class as \<open>_add_hook\<close> sees it: the two optional providers are \<open>None\<close> when the
  class's own \<open>__dict__\<close> lacks them, and otherwise what calling them gives; the three
  attributes are \<open>None\<close> when \<open>hasattr\<close> is false.\<close>

record hook_class =
  dunder_name :: string
  get_connection_form_widgets :: "(exn + (string \<times> field) list) option"
  get_ui_field_behaviour :: "(exn + behaviour) option"
  conn_type :: "string option"
  conn_name_attr :: "string option"
  hook_name :: "string option"

text \<open>An installed distribution with its entry point: \<open>load\<close> is \<open>entry_point.load()()\<close>.\<close>

record distribution =
  metadata_name :: string
  dist_version :: string
  load :: "exn + manifest"

text \<open>A directory as \<open>os.walk\<close> reports it: the names of its files, and its subdirectories.\<close>

datatype tree = Dir (files: "string list") (subdirs: "(string \<times> tree) list")

text \<open>Everything outside the manager that the code consults: the two schema validators,
  \<open>airflow.providers.__path__\<close> with the tree under each root (\<open>None\<close> when the import
  fails), reading and parsing a descriptor, the installed distributions, and importing.\<close>

record env =
  provider_schema_valid :: "manifest \<Rightarrow> bool"
  customized_form_fields_schema_valid :: "behaviour \<Rightarrow> bool"
  providers_path :: "(string \<times> tree) list option"
  safe_load :: "string \<Rightarrow> exn + manifest"
  entry_points_with_dist :: "distribution list"
  import_string :: "string \<Rightarrow> exn option"
  import_class :: "string \<Rightarrow> string \<Rightarrow> exn + hook_class"

record manager =
  initialized_cache :: "(string \<times> bool) list"
  provider_dict :: "(string \<times> ProviderInfo) list"
  hooks_dict :: "(string \<times> HookInfo) list"
  connection_form_widgets :: "(string \<times> ConnectionFormWidgetInfo) list"
  field_behaviours :: "(string \<times> behaviour) list"
  extra_link_class_name_set :: "string set"
  logging_class_name_set :: "string set"
  secrets_backend_class_name_set :: "string set"
  api_auth_backend_module_names :: "string set"
  log :: "log_record list"

definition init :: manager where
  "init = \<lparr>initialized_cache = [], provider_dict = [], hooks_dict = [],
     connection_form_widgets = [], field_behaviours = [],
     extra_link_class_name_set = {}, logging_class_name_set = {},
     secrets_backend_class_name_set = {}, api_auth_backend_module_names = {}, log = []\<rparr>"

definition emit :: "log_record \<Rightarrow> manager \<Rightarrow> manager" where
  "emit r m = m\<lparr>log := log m @ [r]\<rparr>"

definition keys :: "('k \<times> 'v) list \<Rightarrow> 'k set" where
  "keys d = fst ` set d"

text \<open>\<open>OrderedDict(sorted(d.items()))\<close>: the keys of a dict are distinct, so the pairs are
  ordered by key alone.\<close>

definition sorted_items :: "(string \<times> 'v) list \<Rightarrow> (string \<times> 'v) list" where
  "sorted_items d = sort_key fst d"

subsection \<open>Provider discovery\<close>

definition add_provider_info_from_local_source_file ::
  "env \<Rightarrow> string \<Rightarrow> string \<Rightarrow> manager \<Rightarrow> manager" where
  "add_provider_info_from_local_source_file E path pkg m =
     (let m1 = emit (Debug (LoadingFromPath pkg path)) m in
      case safe_load E path of
        Inl e \<Rightarrow> emit (Warning (ErrorWhenLoading path e)) m1
      | Inr info \<Rightarrow>
          if \<not> provider_schema_valid E info
          then emit (Warning (ErrorWhenLoading path ValidationError)) m1
          else (case versions info of
            None \<Rightarrow> emit (Warning (ErrorWhenLoading path (KeyError ''versions''))) m1
          | Some [] \<Rightarrow> emit (Warning (ErrorWhenLoading path IndexError)) m1
          | Some (v # vs) \<Rightarrow>
              if pkg \<notin> keys (provider_dict m1)
              then m1\<lparr>provider_dict := provider_dict m1 @ [(pkg, ProviderInfo v info)]\<rparr>
              else emit (Warning (PathAlreadyRegistered pkg)) m1))"

definition local_package_name :: "string \<Rightarrow> string \<Rightarrow> string" where
  "local_package_name root_path folder =
     ''apache-airflow-providers'' @ replace sep CHR ''-'' (drop (length root_path) folder)"

text \<open>The loop over \<open>os.walk(path, topdown=True)\<close>: a folder's matching files are handled
  first, and the walk descends into what the loop body left of \<open>subdirs\<close>.\<close>

fun walk_folder :: "env \<Rightarrow> string \<Rightarrow> string \<Rightarrow> tree \<Rightarrow> manager \<Rightarrow> manager"
  and walk_subdirs :: "env \<Rightarrow> string \<Rightarrow> string \<Rightarrow> (string \<times> tree) list \<Rightarrow> manager \<Rightarrow> manager"
where
  "walk_folder E root_path folder (Dir fs subs) m =
     (let found = filter (\<lambda>f. f = ''provider.yaml'') fs;
          m1 = fold (\<lambda>filename. add_provider_info_from_local_source_file E
                 (path_join folder filename) (local_package_name root_path folder)) found m
      in if found = [] then walk_subdirs E root_path folder subs m1 else m1)"
| "walk_subdirs E root_path folder [] m = m"
| "walk_subdirs E root_path folder ((d, t) # rest) m =
     walk_subdirs E root_path folder rest (walk_folder E root_path (path_join folder d) t m)"

definition add_provider_info_from_local_source_files_on_path ::
  "env \<Rightarrow> string \<Rightarrow> tree \<Rightarrow> manager \<Rightarrow> manager" where
  "add_provider_info_from_local_source_files_on_path E path t m = walk_folder E path path t m"

text \<open>Nothing that the walk calls raises (\<open>_add_provider_info_from_local_source_file\<close>
  catches every exception), so the handler around the loop over the roots is never
  entered and the procedure always returns.\<close>

definition discover_all_airflow_builtin_providers_from_local_sources ::
  "env \<Rightarrow> manager \<Rightarrow> manager" where
  "discover_all_airflow_builtin_providers_from_local_sources E m =
     (case providers_path E of
        None \<Rightarrow> emit (Info NoProvidersInstalled) m
      | Some roots \<Rightarrow>
          fold (\<lambda>(path, t). add_provider_info_from_local_source_files_on_path E path t) roots m)"

text \<open>The body of the loop over the installed distributions, and the loop: the first
  exception ends it.\<close>

definition discover_provider_from_package ::
  "env \<Rightarrow> distribution \<Rightarrow> manager \<Rightarrow> exn option \<times> manager" where
  "discover_provider_from_package E dist m =
     (let pkg = metadata_name dist in
      if map_of (provider_dict m) pkg \<noteq> None then (None, m)
      else
        let m1 = emit (Debug (LoadingFromPackage pkg)) m in
        case load dist of
          Inl e \<Rightarrow> (Some e, m1)
        | Inr info \<Rightarrow>
            if \<not> provider_schema_valid E info then (Some ValidationError, m1)
            else (case package_name info of
              None \<Rightarrow> (Some (KeyError ''package-name''), m1)
            | Some info_name \<Rightarrow>
                if pkg \<noteq> info_name then (Some (PackageMismatch pkg info_name), m1)
                else if pkg \<notin> keys (provider_dict m1)
                then (None, m1\<lparr>provider_dict :=
                        provider_dict m1 @ [(pkg, ProviderInfo (dist_version dist) info)]\<rparr>)
                else (None, emit (Warning (PackageAlreadyRegistered pkg)) m1)))"

fun discover_packages_loop :: "env \<Rightarrow> distribution list \<Rightarrow> manager \<Rightarrow> exn option \<times> manager" where
  "discover_packages_loop E [] m = (None, m)"
| "discover_packages_loop E (dist # rest) m =
     (case discover_provider_from_package E dist m of
        (Some e, m1) \<Rightarrow> (Some e, m1)
      | (None, m1) \<Rightarrow> discover_packages_loop E rest m1)"

definition discover_all_providers_from_packages :: "env \<Rightarrow> manager \<Rightarrow> exn option \<times> manager" where
  "discover_all_providers_from_packages E m =
     discover_packages_loop E (entry_points_with_dist E) m"

subsection \<open>Sanity check\<close>

definition sanity_check :: "env \<Rightarrow> string \<Rightarrow> string \<Rightarrow> manager \<Rightarrow> bool \<times> manager" where
  "sanity_check E provider_package class_name m =
     (let provider_path = replace CHR ''-'' CHR ''.'' (drop (length ''apache-'') provider_package) in
      if startswith provider_package ''apache-airflow'' \<and> \<not> startswith class_name provider_path
      then (False, emit (Warning (SanityCheckFailed class_name provider_package provider_path)) m)
      else (case import_string E class_name of
        Some e \<Rightarrow> (False, emit (Warning (ExceptionWhenImporting class_name provider_package e)) m)
      | None \<Rightarrow> (True, m)))"

subsection \<open>Hooks, widgets and field behaviours\<close>

definition ALLOWED_FIELD_CLASSES :: "field_class list" where
  "ALLOWED_FIELD_CLASSES = [IntegerField, PasswordField, StringField, BooleanField]"

fun add_widgets :: "string \<Rightarrow> hook_class \<Rightarrow> (string \<times> field) list \<Rightarrow> manager \<Rightarrow> manager" where
  "add_widgets pkg cls [] m = m"
| "add_widgets pkg cls ((field_name, fld) # rest) m =
     add_widgets pkg cls rest
       (if \<not> startswith field_name ''extra__''
        then emit (Warning (FieldWithoutPrefix field_name (dunder_name cls))) m
        else if field_name \<in> keys (connection_form_widgets m)
        then emit (Warning (FieldAlreadyAdded field_name (dunder_name cls))) m
        else m\<lparr>connection_form_widgets := connection_form_widgets m @
                 [(field_name, ConnectionFormWidgetInfo (dunder_name cls) pkg fld)]\<rparr>)"

definition add_customized_fields :: "env \<Rightarrow> string \<Rightarrow> hook_class \<Rightarrow> behaviour \<Rightarrow> manager \<Rightarrow> manager" where
  "add_customized_fields E pkg cls customized_fields m =
     (case conn_type cls of
        None \<Rightarrow> emit (Warning (ErrorLoadingCustomizedFields pkg (dunder_name cls) AttributeError)) m
      | Some connection_type \<Rightarrow>
          if \<not> customized_form_fields_schema_valid E customized_fields
          then emit (Warning (ErrorLoadingCustomizedFields pkg (dunder_name cls) ValidationError)) m
          else if connection_type \<in> keys (field_behaviours m)
          then emit (Warning (ConnectionTypeAlreadyAdded connection_type pkg (dunder_name cls))) m
          else m\<lparr>field_behaviours := field_behaviours m @ [(connection_type, customized_fields)]\<rparr>)"

text \<open>How the \<open>try\<close> block of \<open>_add_hook\<close> ends: it falls through with the class loaded,
  it returns from \<open>_add_hook\<close>, or it raises into one of the two handlers.\<close>

datatype flow = Continue hook_class | Return | Raise exn

definition add_hook_behaviours :: "env \<Rightarrow> string \<Rightarrow> hook_class \<Rightarrow> manager \<Rightarrow> flow \<times> manager" where
  "add_hook_behaviours E pkg cls m =
     (case get_ui_field_behaviour cls of
        None \<Rightarrow> (Continue cls, m)
      | Some (Inl e) \<Rightarrow> (Raise e, m)
      | Some (Inr behaviours) \<Rightarrow>
          if behaviours \<noteq> [] then (Continue cls, add_customized_fields E pkg cls behaviours m)
          else (Continue cls, m))"

definition add_hook_try :: "env \<Rightarrow> string \<Rightarrow> string \<Rightarrow> manager \<Rightarrow> flow \<times> manager" where
  "add_hook_try E hook_class_name pkg m =
     (case rsplit_dot hook_class_name of
        None \<Rightarrow> (Raise ValueError, m)
      | Some (module, class_name) \<Rightarrow>
         (case import_class E module class_name of
            Inl e \<Rightarrow> (Raise e, m)
          | Inr cls \<Rightarrow>
             (case get_connection_form_widgets cls of
                None \<Rightarrow> add_hook_behaviours E pkg cls m
              | Some (Inl e) \<Rightarrow> (Raise e, m)
              | Some (Inr widgets) \<Rightarrow>
                  if widgets \<noteq> [] then
                    (case filter (\<lambda>w. field_class w \<notin> set ALLOWED_FIELD_CLASSES) (map snd widgets) of
                       w # ws \<Rightarrow>
                         (Return, emit (Warning (UnsupportedFieldClass hook_class_name (field_class w))) m)
                     | [] \<Rightarrow> add_hook_behaviours E pkg cls (add_widgets pkg cls widgets m))
                  else add_hook_behaviours E pkg cls m)))"

definition get_attr :: "hook_class \<Rightarrow> string \<Rightarrow> string option \<Rightarrow> manager \<Rightarrow> string option \<times> manager" where
  "get_attr cls attr_name v m =
     (case v of
        None \<Rightarrow> (None, emit (Warning (MissingAttribute (dunder_name cls) attr_name)) m)
      | Some x \<Rightarrow> (Some x, m))"

definition falsy :: "string option \<Rightarrow> bool" where
  "falsy v = (v = None \<or> v = Some [])"

definition add_hook :: "env \<Rightarrow> string \<Rightarrow> string \<Rightarrow> manager \<Rightarrow> manager" where
  "add_hook E hook_class_name provider_package m =
     (case sanity_check E provider_package hook_class_name m of
        (False, m1) \<Rightarrow> m1
      | (True, m1) \<Rightarrow>
          if hook_class_name \<in> keys (hooks_dict m1)
          then emit (Warning (HookAlreadyRegistered hook_class_name)) m1
          else (case add_hook_try E hook_class_name provider_package m1 of
            (Raise ImportError, m2) \<Rightarrow>
              emit (Debug (ExceptionWhenImporting hook_class_name provider_package ImportError)) m2
          | (Raise e, m2) \<Rightarrow>
              emit (Warning (ExceptionWhenImporting hook_class_name provider_package e)) m2
          | (Return, m2) \<Rightarrow> m2
          | (Continue cls, m2) \<Rightarrow>
             (case get_attr cls ''conn_type'' (conn_type cls) m2 of (ct, m3) \<Rightarrow>
              case get_attr cls ''conn_name_attr'' (conn_name_attr cls) m3 of (attr, m4) \<Rightarrow>
              case get_attr cls ''hook_name'' (hook_name cls) m4 of (hn, m5) \<Rightarrow>
                if falsy ct \<or> falsy attr \<or> falsy hn then m5
                else m5\<lparr>hooks_dict := AList.update (the ct)
                        (HookInfo hook_class_name (the attr) provider_package (the hn))
                        (hooks_dict m5)\<rparr>)))"

definition discover_hooks :: "env \<Rightarrow> manager \<Rightarrow> manager" where
  "discover_hooks E m =
     fold (\<lambda>(provider_package, provider).
        case hook_class_names (provider_info provider) of
          None \<Rightarrow> id
        | Some names \<Rightarrow> fold (\<lambda>hook_class_name. add_hook E hook_class_name provider_package) names)
       (provider_dict m) m"

subsection \<open>Extra links, logging, secrets backends, auth backends\<close>

definition add_checked ::
  "env \<Rightarrow> string \<Rightarrow> string \<Rightarrow> (manager \<Rightarrow> manager) \<Rightarrow> manager \<Rightarrow> manager" where
  "add_checked E provider_package class_name ins m =
     (case sanity_check E provider_package class_name m of
        (True, m1) \<Rightarrow> ins m1
      | (False, m1) \<Rightarrow> m1)"

definition discover_extra_links :: "env \<Rightarrow> manager \<Rightarrow> manager" where
  "discover_extra_links E m =
     fold (\<lambda>(provider_package, provider).
        case extra_links (provider_info provider) of
          None \<Rightarrow> id
        | Some names \<Rightarrow> fold (\<lambda>n. add_checked E provider_package n
            (\<lambda>m. m\<lparr>extra_link_class_name_set := insert n (extra_link_class_name_set m)\<rparr>)) names)
       (provider_dict m) m"

definition discover_logging :: "env \<Rightarrow> manager \<Rightarrow> manager" where
  "discover_logging E m =
     fold (\<lambda>(provider_package, provider).
        case logging (provider_info provider) of
          None \<Rightarrow> id
        | Some names \<Rightarrow> fold (\<lambda>n. add_checked E provider_package n
            (\<lambda>m. m\<lparr>logging_class_name_set := insert n (logging_class_name_set m)\<rparr>)) names)
       (provider_dict m) m"

definition discover_secrets_backends :: "env \<Rightarrow> manager \<Rightarrow> manager" where
  "discover_secrets_backends E m =
     fold (\<lambda>(provider_package, provider).
        case secrets_backends (provider_info provider) of
          None \<Rightarrow> id
        | Some names \<Rightarrow> fold (\<lambda>n. add_checked E provider_package n
            (\<lambda>m. m\<lparr>secrets_backend_class_name_set := insert n (secrets_backend_class_name_set m)\<rparr>)) names)
       (provider_dict m) m"

definition discover_auth_backends :: "env \<Rightarrow> manager \<Rightarrow> manager" where
  "discover_auth_backends E m =
     fold (\<lambda>(provider_package, provider).
        case auth_backends (provider_info provider) of
          None \<Rightarrow> id
        | Some names \<Rightarrow> fold (\<lambda>n. add_checked E provider_package (n @ ''.init_app'')
            (\<lambda>m. m\<lparr>api_auth_backend_module_names := insert n (api_auth_backend_module_names m)\<rparr>)) names)
       (provider_dict m) m"

subsection \<open>Lazy initialization\<close>

definition provider_info_cache ::
  "string \<Rightarrow> (manager \<Rightarrow> exn option \<times> manager) \<Rightarrow> manager \<Rightarrow> exn option \<times> manager" where
  "provider_info_cache cache_name func m =
     (if cache_name \<in> keys (initialized_cache m) then (None, m)
      else (case func (emit (Debug (Initializing cache_name)) m) of
        (Some e, m1) \<Rightarrow> (Some e, m1)
      | (None, m1) \<Rightarrow>
          (None, emit (Debug (InitializationTook cache_name))
             (m1\<lparr>initialized_cache := AList.update cache_name True (initialized_cache m1)\<rparr>))))"

definition initialize_providers_list :: "env \<Rightarrow> manager \<Rightarrow> exn option \<times> manager" where
  "initialize_providers_list E =
     provider_info_cache ''list'' (\<lambda>m.
       case discover_all_providers_from_packages E
              (discover_all_airflow_builtin_providers_from_local_sources E m) of
         (Some e, m1) \<Rightarrow> (Some e, m1)
       | (None, m1) \<Rightarrow> (None, m1\<lparr>provider_dict := sorted_items (provider_dict m1)\<rparr>))"

text \<open>The five extractors share one shape: the list first, then the extractor's own
  discovery.\<close>

definition after_list :: "env \<Rightarrow> (manager \<Rightarrow> manager) \<Rightarrow> manager \<Rightarrow> exn option \<times> manager" where
  "after_list E discover m =
     (case initialize_providers_list E m of
        (Some e, m1) \<Rightarrow> (Some e, m1)
      | (None, m1) \<Rightarrow> (None, discover m1))"

definition initialize_providers_hooks :: "env \<Rightarrow> manager \<Rightarrow> exn option \<times> manager" where
  "initialize_providers_hooks E =
     provider_info_cache ''hooks'' (after_list E (\<lambda>m.
       let m1 = discover_hooks E m in
       m1\<lparr>hooks_dict := sorted_items (hooks_dict m1),
          connection_form_widgets := sorted_items (connection_form_widgets m1),
          field_behaviours := sorted_items (field_behaviours m1)\<rparr>))"

definition initialize_providers_extra_links :: "env \<Rightarrow> manager \<Rightarrow> exn option \<times> manager" where
  "initialize_providers_extra_links E =
     provider_info_cache ''extra_links'' (after_list E (discover_extra_links E))"

definition initialize_providers_logging :: "env \<Rightarrow> manager \<Rightarrow> exn option \<times> manager" where
  "initialize_providers_logging E =
     provider_info_cache ''logging'' (after_list E (discover_logging E))"

definition initialize_providers_secrets_backends :: "env \<Rightarrow> manager \<Rightarrow> exn option \<times> manager" where
  "initialize_providers_secrets_backends E =
     provider_info_cache ''secrets_backends'' (after_list E (discover_secrets_backends E))"

definition initialize_providers_auth_backends :: "env \<Rightarrow> manager \<Rightarrow> exn option \<times> manager" where
  "initialize_providers_auth_backends E =
     provider_info_cache ''auth_backends'' (after_list E (discover_auth_backends E))"

subsection \<open>Read surface\<close>

datatype accessor = providers | hooks | extra_links_class_names | connection_form_widgets_view
  | field_behaviours_view | logging_class_names | secrets_backend_class_names
  | auth_backend_module_names

datatype view =
    Providers "(string \<times> ProviderInfo) list"
  | Hooks "(string \<times> HookInfo) list"
  | Widgets "(string \<times> ConnectionFormWidgetInfo) list"
  | Behaviours "(string \<times> behaviour) list"
  | Names "string list"

definition returning ::
  "(manager \<Rightarrow> exn option \<times> manager) \<Rightarrow> (manager \<Rightarrow> view) \<Rightarrow> manager \<Rightarrow> (exn + view) \<times> manager" where
  "returning initialize result m =
     (case initialize m of
        (Some e, m1) \<Rightarrow> (Inl e, m1)
      | (None, m1) \<Rightarrow> (Inr (result m1), m1))"

fun access :: "env \<Rightarrow> accessor \<Rightarrow> manager \<Rightarrow> (exn + view) \<times> manager" where
  "access E providers = returning (initialize_providers_list E) (\<lambda>m. Providers (provider_dict m))"
| "access E hooks = returning (initialize_providers_hooks E) (\<lambda>m. Hooks (hooks_dict m))"
| "access E extra_links_class_names = returning (initialize_providers_extra_links E)
     (\<lambda>m. Names (sorted_list_of_set (extra_link_class_name_set m)))"
| "access E connection_form_widgets_view = returning (initialize_providers_hooks E)
     (\<lambda>m. Widgets (connection_form_widgets m))"
| "access E field_behaviours_view = returning (initialize_providers_hooks E)
     (\<lambda>m. Behaviours (field_behaviours m))"
| "access E logging_class_names = returning (initialize_providers_logging E)
     (\<lambda>m. Names (sorted_list_of_set (logging_class_name_set m)))"
| "access E secrets_backend_class_names = returning (initialize_providers_secrets_backends E)
     (\<lambda>m. Names (sorted_list_of_set (secrets_backend_class_name_set m)))"
| "access E auth_backend_module_names = returning (initialize_providers_auth_backends E)
     (\<lambda>m. Names (sorted_list_of_set (api_auth_backend_module_names m)))"

fun view_keys :: "view \<Rightarrow> string list" where
  "view_keys (Providers d) = map fst d"
| "view_keys (Hooks d) = map fst d"
| "view_keys (Widgets d) = map fst d"
| "view_keys (Behaviours d) = map fst d"
| "view_keys (Names ns) = ns"

text \<open>\<open>ProvidersManager()\<close>: \<open>__new__\<close> hands out the one instance and \<open>__init__\<close> then runs
  on it, on every call, so each construction empties the flags and all tables of the
  manager as earlier use left it. The log is not the instance's and stays.\<close>

definition dunder_init :: "manager \<Rightarrow> manager" where
  "dunder_init m = init\<lparr>log := log m\<rparr>"

text \<open>Sequential reads on one construction of the manager: a list of accesses, each in the
  environment it finds, with no \<open>ProvidersManager()\<close> call in between.\<close>

fun accesses :: "(env \<times> accessor) list \<Rightarrow> manager \<Rightarrow> manager" where
  "accesses [] m = m"
| "accesses ((E, a) # rest) m = accesses rest (snd (access E a m))"

section \<open>Example inputs\<close>

text \<open>Concrete environments and states on which the theorems below are exercised.\<close>

definition no_manifest :: manifest where
  "no_manifest = \<lparr>package_name = None, versions = None, hook_class_names = None,
     extra_links = None, logging = None, secrets_backends = None, auth_backends = None\<rparr>"

definition bare_env :: env where
  "bare_env = \<lparr>provider_schema_valid = (\<lambda>i. package_name i \<noteq> None \<and> versions i \<noteq> None),
     customized_form_fields_schema_valid = (\<lambda>b. True),
     providers_path = Some [],
     safe_load = (\<lambda>p. Inl OSError),
     entry_points_with_dist = [],
     import_string = (\<lambda>c. None),
     import_class = (\<lambda>m c. Inl ImportError)\<rparr>"

definition hook_of :: "string \<Rightarrow> string \<Rightarrow> (string \<times> field) list \<Rightarrow> hook_class" where
  "hook_of n ct ws = \<lparr>dunder_name = n, get_connection_form_widgets = Some (Inr ws),
     get_ui_field_behaviour = Some (Inr [(''relabeling'', JObject [(''login'', JString n)])]),
     conn_type = Some ct, conn_name_attr = Some ''conn_id'', hook_name = Some n\<rparr>"

definition prefix_env :: env where
  "prefix_env = bare_env\<lparr>import_class := (\<lambda>m c. Inr (hook_of c ''svc''
     [(''extra__svc__id'', Field StringField ''Id''), (''token'', Field StringField ''Token'')]))\<rparr>"

definition unsupported_env :: env where
  "unsupported_env = bare_env\<lparr>import_class := (\<lambda>m c. Inr (hook_of c ''svc''
     [(''extra__svc__id'', Field StringField ''Id''),
      (''extra__svc__token'', Field (OtherField ''DateField'') ''Token'')]))\<rparr>"

definition two_hooks_env :: env where
  "two_hooks_env = bare_env\<lparr>
     entry_points_with_dist :=
       [\<lparr>metadata_name = ''acme'', dist_version = ''1.0'',
          load = Inr (no_manifest\<lparr>package_name := Some ''acme'', versions := Some [''1.0''],
                   hook_class_names := Some [''acme.hooks.AcmeFooHook'']\<rparr>)\<rparr>,
        \<lparr>metadata_name = ''zeta'', dist_version = ''1.0'',
          load = Inr (no_manifest\<lparr>package_name := Some ''zeta'', versions := Some [''1.0''],
                   hook_class_names := Some [''zeta.hooks.ZetaFooHook'']\<rparr>)\<rparr>],
     import_class := (\<lambda>m c. Inr (hook_of c ''foo'' []))\<rparr>"

definition taken_state :: manager where
  "taken_state = init\<lparr>provider_dict := [(''acme'', ProviderInfo ''1.0''
     (no_manifest\<lparr>package_name := Some ''acme'', versions := Some [''1.0'']\<rparr>))]\<rparr>"

definition unloadable_dist :: distribution where
  "unloadable_dist = \<lparr>metadata_name = ''acme'', dist_version = ''2.0'', load = Inl ImportError\<rparr>"

definition misnamed_dist :: distribution where
  "misnamed_dist = \<lparr>metadata_name = ''acme'', dist_version = ''2.0'',
     load = Inr (no_manifest\<lparr>package_name := Some ''other''\<rparr>)\<rparr>"

definition source_manifest :: manifest where
  "source_manifest = no_manifest\<lparr>package_name := Some ''foo'', versions := Some [''1.0.0'']\<rparr>"

definition installed_manifest :: manifest where
  "installed_manifest = no_manifest\<lparr>package_name := Some ''foo'', versions := Some [''1.5.0'']\<rparr>"

definition shadow_env :: env where
  "shadow_env = bare_env\<lparr>
     providers_path := Some [(''/src/airflow/providers'',
        Dir [''__init__.py''] [(''a'', Dir [''provider.yaml''] [])])],
     safe_load := (\<lambda>p. if p = ''/src/airflow/providers/a/provider.yaml''
        then Inr source_manifest else Inl OSError),
     entry_points_with_dist :=
       [\<lparr>metadata_name = ''foo'', dist_version = ''2.0.0'', load = Inr installed_manifest\<rparr>,
        \<lparr>metadata_name = ''apache-airflow-providers-a'', dist_version = ''3.0.0'',
          load = Inr (no_manifest\<lparr>package_name := Some ''apache-airflow-providers-a'',
                    versions := Some [''3.0.0'']\<rparr>)\<rparr>]\<rparr>"

definition invalid_manifest_env :: env where
  "invalid_manifest_env = bare_env\<lparr>
     entry_points_with_dist :=
       [\<lparr>metadata_name = ''acme'', dist_version = ''1.0'',
          load = Inr (no_manifest\<lparr>package_name := Some ''acme''\<rparr>)\<rparr>,
        \<lparr>metadata_name = ''zeta'', dist_version = ''1.0'',
          load = Inr (no_manifest\<lparr>package_name := Some ''zeta'', versions := Some [''1.0'']\<rparr>)\<rparr>]\<rparr>"

definition acme_dist :: distribution where
  "acme_dist = \<lparr>metadata_name = ''acme'', dist_version = ''1.0'',
     load = Inr (no_manifest\<lparr>package_name := Some ''acme'', versions := Some [''1.0'']\<rparr>)\<rparr>"

definition renamed_dist :: distribution where
  "renamed_dist = \<lparr>metadata_name = ''zeta'', dist_version = ''1.0'',
     load = Inr (no_manifest\<lparr>package_name := Some ''zeta-renamed'', versions := Some [''1.0'']\<rparr>)\<rparr>"

definition omega_dist :: distribution where
  "omega_dist = \<lparr>metadata_name = ''omega'', dist_version = ''1.0'',
     load = Inr (no_manifest\<lparr>package_name := Some ''omega'', versions := Some [''1.0'']\<rparr>)\<rparr>"

definition mismatch_env :: env where
  "mismatch_env = bare_env\<lparr>entry_points_with_dist := [acme_dist, renamed_dist, omega_dist]\<rparr>"

definition after_acme :: manager where
  "after_acme = init\<lparr>
     provider_dict := [(''acme'', ProviderInfo ''1.0''
        (no_manifest\<lparr>package_name := Some ''acme'', versions := Some [''1.0'']\<rparr>))],
     log := [Debug (Initializing ''list''), Debug (LoadingFromPackage ''acme'')]\<rparr>"



definition unordered_env :: env where
  "unordered_env = bare_env\<lparr>
     entry_points_with_dist :=
       [\<lparr>metadata_name = ''zeta'', dist_version = ''1.0'',
          load = Inr (no_manifest\<lparr>package_name := Some ''zeta'', versions := Some [''1.0''],
                   hook_class_names := Some [''zeta.hooks.AlphaHook'']\<rparr>)\<rparr>,
        \<lparr>metadata_name = ''acme'', dist_version = ''1.0'',
          load = Inr (no_manifest\<lparr>package_name := Some ''acme'', versions := Some [''1.0''],
                   hook_class_names := Some [''acme.hooks.OmegaHook'']\<rparr>)\<rparr>],
     import_class := (\<lambda>m c. Inr (hook_of c c []))\<rparr>"


section \<open>Auxiliary predicates\<close>

text \<open>What a procedure leaves alone: \<open>frame f m m'\<close> says that from \<open>m\<close> to \<open>m'\<close> the log only
  grew, by records other than the decorator's \<open>Initializing\<close>, and that the part \<open>f\<close> of the
  manager is the same.\<close>

definition quiet :: "log_record list \<Rightarrow> bool" where
  "quiet l = (\<forall>c. Debug (Initializing c) \<notin> set l)"

definition appended :: "manager \<Rightarrow> manager \<Rightarrow> bool" where
  "appended m m' = (\<exists>l. quiet l \<and> log m' = log m @ l)"

definition frame :: "(manager \<Rightarrow> 'a) \<Rightarrow> manager \<Rightarrow> manager \<Rightarrow> bool" where
  "frame f m m' = (appended m m' \<and> f m' = f m)"

definition besides_providers where
  "besides_providers m = (initialized_cache m, hooks_dict m, connection_form_widgets m,
     field_behaviours m, extra_link_class_name_set m, logging_class_name_set m,
     secrets_backend_class_name_set m, api_auth_backend_module_names m)"

definition besides_hooks where
  "besides_hooks m = (initialized_cache m, provider_dict m, extra_link_class_name_set m,
     logging_class_name_set m, secrets_backend_class_name_set m, api_auth_backend_module_names m)"

definition besides_names where
  "besides_names m = (initialized_cache m, provider_dict m, hooks_dict m,
     connection_form_widgets m, field_behaviours m)"

definition besides_log where
  "besides_log m = m\<lparr>log := []\<rparr>"

text \<open>How the provider table grows: \<open>extends P d d'\<close> says that \<open>d'\<close> is \<open>d\<close> followed by
  records under new, distinct keys, each satisfying \<open>P\<close>; \<open>from_source\<close> and \<open>from_package\<close>
  say where a record's manifest and version come from.\<close>

definition extends :: "('k \<times> 'v \<Rightarrow> bool) \<Rightarrow> ('k \<times> 'v) list \<Rightarrow> ('k \<times> 'v) list \<Rightarrow> bool" where
  "extends P d d' = (\<exists>new. d' = d @ new \<and> distinct (map fst new) \<and> keys new \<inter> keys d = {} \<and> list_all P new)"

definition from_source :: "env \<Rightarrow> string \<times> ProviderInfo \<Rightarrow> bool" where
  "from_source E e = (\<exists>path vs. safe_load E path = Inr (provider_info (snd e)) \<and>
      versions (provider_info (snd e)) = Some (version (snd e) # vs))"

definition from_package :: "distribution list \<Rightarrow> string \<times> ProviderInfo \<Rightarrow> bool" where
  "from_package ds e = (\<exists>dist \<in> set ds. metadata_name dist = fst e \<and>
      load dist = Inr (provider_info (snd e)) \<and> version (snd e) = dist_version dist)"

definition agree :: "manager \<Rightarrow> manager \<Rightarrow> bool" where
  "agree m m' = (provider_dict m = provider_dict m')"





text \<open>The call counter of an initialization procedure, read off the log: the decorator
  writes one \<open>Initializing\<close> record each time it runs the procedure it wraps.\<close>

definition executions :: "string \<Rightarrow> manager \<Rightarrow> nat" where
  "executions c m = count_list (log m) (Debug (Initializing c))"



definition settled :: "manager \<Rightarrow> bool" where
  "settled m =
     ((''list'' \<in> keys (initialized_cache m) \<longrightarrow> sorted (map fst (provider_dict m))) \<and>
      (''hooks'' \<in> keys (initialized_cache m) \<longrightarrow>
         sorted (map fst (hooks_dict m)) \<and> sorted (map fst (connection_form_widgets m)) \<and>
         sorted (map fst (field_behaviours m))))"


section \<open>Lemmas\<close>

lemmas run_simps = Let_def init_def emit_def keys_def startswith_def replace_def sep_def path_join_def
  rsplit_dot_def sorted_items_def local_package_name_def
  add_provider_info_from_local_source_file_def add_provider_info_from_local_source_files_on_path_def
  discover_all_airflow_builtin_providers_from_local_sources_def discover_provider_from_package_def
  discover_all_providers_from_packages_def sanity_check_def ALLOWED_FIELD_CLASSES_def
  add_customized_fields_def add_hook_behaviours_def add_hook_try_def get_attr_def falsy_def
  add_hook_def discover_hooks_def add_checked_def discover_extra_links_def discover_logging_def
  discover_secrets_backends_def discover_auth_backends_def provider_info_cache_def
  initialize_providers_list_def after_list_def initialize_providers_hooks_def
  initialize_providers_extra_links_def initialize_providers_logging_def
  initialize_providers_secrets_backends_def initialize_providers_auth_backends_def returning_def


lemma appended_refl: "appended m m"
  by (simp add: appended_def quiet_def)

lemma appended_trans:
  assumes "appended m m'" and "appended m' m''"
  shows "appended m m''"
proof -
  from assms obtain l l' where "quiet l" "log m' = log m @ l" "quiet l'" "log m'' = log m' @ l'"
    unfolding appended_def by blast
  then have "quiet (l @ l') \<and> log m'' = log m @ (l @ l')"
    by (simp add: quiet_def)
  then show ?thesis
    unfolding appended_def by blast
qed

lemma frame_refl: "frame f m m"
  by (simp add: frame_def appended_refl)

lemma frame_trans: "frame f m m' \<Longrightarrow> frame f m' m'' \<Longrightarrow> frame f m m''"
  unfolding frame_def by (auto intro: appended_trans)

lemma frame_fold:
  "(\<And>x m. frame f m (g x m)) \<Longrightarrow> frame f m (fold g xs m)"
proof (induction xs arbitrary: m)
  case Nil
  show ?case by (simp add: frame_refl)
next
  case (Cons x xs)
  have "frame f m (g x m)" by (rule Cons.prems)
  moreover have "frame f (g x m) (fold g xs (g x m))"
    by (rule Cons.IH) (rule Cons.prems)
  ultimately have "frame f m (fold g xs (g x m))"
    by (rule frame_trans)
  then show ?case by simp
qed

lemma log_only_providers: "frame besides_log m m' \<Longrightarrow> frame besides_providers m m'"
  unfolding frame_def besides_log_def besides_providers_def
  by (cases m, cases m') simp

lemma log_only_hooks: "frame besides_log m m' \<Longrightarrow> frame besides_hooks m m'"
  unfolding frame_def besides_log_def besides_hooks_def
  by (cases m, cases m') simp

lemma log_only_names: "frame besides_log m m' \<Longrightarrow> frame besides_names m m'"
  unfolding frame_def besides_log_def besides_names_def
  by (cases m, cases m') simp

lemmas frame_unfold = frame_def appended_def quiet_def emit_def

lemma local_file_frame:
  "frame besides_providers m (add_provider_info_from_local_source_file E path pkg m)"
  unfolding add_provider_info_from_local_source_file_def Let_def
  by (simp add: frame_unfold besides_providers_def split: sum.splits option.splits list.splits)

lemma walk_frame:
  "frame besides_providers m (walk_folder E root_path folder t m)"
  "frame besides_providers m (walk_subdirs E root_path folder ts m)"
proof (induction E root_path folder t m and E root_path folder ts m rule: walk_folder_walk_subdirs.induct)
  case (1 E root_path folder fs subs m)
  let ?found = "filter (\<lambda>f. f = ''provider.yaml'') fs"
  let ?m1 = "fold (\<lambda>filename. add_provider_info_from_local_source_file E
                 (path_join folder filename) (local_package_name root_path folder)) ?found m"
  have a: "frame besides_providers m ?m1"
    by (rule frame_fold) (rule local_file_frame)
  show ?case
  proof (cases "?found = []")
    case True
    then have "frame besides_providers ?m1 (walk_subdirs E root_path folder subs ?m1)"
      using "1.IH" by simp
    with a have "frame besides_providers m (walk_subdirs E root_path folder subs ?m1)"
      by (rule frame_trans)
    with True show ?thesis
      by (simp add: Let_def)
  next
    case False
    with a show ?thesis by (simp add: Let_def)
  qed
next
  case (2 E root_path folder m)
  show ?case by (simp add: frame_refl)
next
  case (3 E root_path folder d t rest m)
  have "frame besides_providers m
     (walk_subdirs E root_path folder rest (walk_folder E root_path (path_join folder d) t m))"
    using "3.IH" by (rule frame_trans)
  then show ?case by simp
qed

lemma local_sources_frame:
  "frame besides_providers m (discover_all_airflow_builtin_providers_from_local_sources E m)"
proof (cases "providers_path E")
  case None
  then show ?thesis
    by (simp add: discover_all_airflow_builtin_providers_from_local_sources_def frame_unfold
        besides_providers_def)
next
  case (Some roots)
  have "frame besides_providers m
     (fold (\<lambda>(path, t). add_provider_info_from_local_source_files_on_path E path t) roots m)"
    by (rule frame_fold)
       (simp add: add_provider_info_from_local_source_files_on_path_def walk_frame split: prod.splits)
  with Some show ?thesis
    by (simp add: discover_all_airflow_builtin_providers_from_local_sources_def)
qed

lemma package_frame:
  "frame besides_providers m (snd (discover_provider_from_package E dist m))"
  unfolding discover_provider_from_package_def Let_def
  by (simp add: frame_unfold besides_providers_def split: sum.splits option.splits)

lemma packages_loop_frame:
  "frame besides_providers m (snd (discover_packages_loop E ds m))"
proof (induction ds arbitrary: m)
  case Nil
  show ?case by (simp add: frame_refl)
next
  case (Cons dist ds)
  obtain r m1 where s: "discover_provider_from_package E dist m = (r, m1)"
    by (cases "discover_provider_from_package E dist m")
  have 1: "frame besides_providers m m1"
    using package_frame [of m E dist] s by simp
  show ?case
  proof (cases r)
    case None
    have "frame besides_providers m (snd (discover_packages_loop E ds m1))"
      using 1 Cons.IH [of m1] by (rule frame_trans)
    with None s show ?thesis by simp
  next
    case (Some e)
    with s 1 show ?thesis by simp
  qed
qed

lemma sanity_check_frame: "frame besides_log m (snd (sanity_check E pkg c m))"
  unfolding sanity_check_def Let_def
  by (simp add: frame_unfold besides_log_def split: option.splits)

lemma add_widgets_frame: "frame besides_hooks m (add_widgets pkg cls ws m)"
proof (induction pkg cls ws m rule: add_widgets.induct)
  case (1 pkg cls m)
  show ?case by (simp add: frame_refl)
next
  case (2 pkg cls field_name fld rest m)
  let ?m1 = "if \<not> startswith field_name ''extra__''
        then emit (Warning (FieldWithoutPrefix field_name (dunder_name cls))) m
        else if field_name \<in> keys (connection_form_widgets m)
        then emit (Warning (FieldAlreadyAdded field_name (dunder_name cls))) m
        else m\<lparr>connection_form_widgets := connection_form_widgets m @
                 [(field_name, ConnectionFormWidgetInfo (dunder_name cls) pkg fld)]\<rparr>"
  have "frame besides_hooks m ?m1"
    by (simp add: frame_unfold besides_hooks_def)
  moreover have "frame besides_hooks ?m1 (add_widgets pkg cls rest ?m1)"
    by (rule "2.IH")
  ultimately have "frame besides_hooks m (add_widgets pkg cls rest ?m1)"
    by (rule frame_trans)
  then show ?case by simp
qed

lemma add_customized_fields_frame:
  "frame besides_hooks m (add_customized_fields E pkg cls b m)"
  unfolding add_customized_fields_def
  by (simp add: frame_unfold besides_hooks_def split: option.splits)

lemma add_hook_behaviours_frame:
  "frame besides_hooks m (snd (add_hook_behaviours E pkg cls m))"
  unfolding add_hook_behaviours_def
  by (simp add: frame_refl add_customized_fields_frame split: option.splits sum.splits)

lemma add_hook_try_frame:
  "frame besides_hooks m (snd (add_hook_try E h pkg m))"
proof -
  have w: "frame besides_hooks m (snd (add_hook_behaviours E pkg cls (add_widgets pkg cls ws m)))"
    for cls ws
    by (rule frame_trans [OF add_widgets_frame add_hook_behaviours_frame])
  have u: "frame besides_hooks m (emit (Warning (UnsupportedFieldClass h k)) m)" for k
    by (simp add: frame_unfold besides_hooks_def)
  show ?thesis
    unfolding add_hook_try_def
    by (simp add: frame_refl add_hook_behaviours_frame w u
        split: option.splits sum.splits prod.splits list.splits)
qed

lemma get_attr_frame: "frame besides_log m (snd (get_attr cls a v m))"
  unfolding get_attr_def
  by (simp add: frame_unfold besides_log_def split: option.splits)

lemma add_hook_register_frame:
  "frame besides_hooks m
     (case get_attr cls ''conn_type'' (conn_type cls) m of (ct, m3) \<Rightarrow>
      case get_attr cls ''conn_name_attr'' (conn_name_attr cls) m3 of (attr, m4) \<Rightarrow>
      case get_attr cls ''hook_name'' (hook_name cls) m4 of (hn, m5) \<Rightarrow>
        if falsy ct \<or> falsy attr \<or> falsy hn then m5
        else m5\<lparr>hooks_dict := AList.update (the ct)
                (HookInfo h (the attr) pkg (the hn)) (hooks_dict m5)\<rparr>)"
  unfolding get_attr_def
  by (simp add: frame_unfold besides_hooks_def split: option.splits)

lemma add_hook_frame: "frame besides_hooks m (add_hook E h pkg m)"
proof -
  obtain ok m1 where s: "sanity_check E pkg h m = (ok, m1)"
    by (cases "sanity_check E pkg h m")
  have 1: "frame besides_hooks m m1"
    using sanity_check_frame [of m E pkg h] s by (simp add: log_only_hooks)
  obtain fl m2 where t: "add_hook_try E h pkg m1 = (fl, m2)"
    by (cases "add_hook_try E h pkg m1")
  have 2: "frame besides_hooks m1 m2"
    using add_hook_try_frame [of m1 E h pkg] t by simp
  have e: "frame besides_hooks m' (emit (Warning r) m')" for r m'
    by (simp add: frame_unfold besides_hooks_def)
  have d: "frame besides_hooks m' (emit (Debug (ExceptionWhenImporting a b c)) m')" for a b c m'
    by (simp add: frame_unfold besides_hooks_def)
  have "frame besides_hooks m1 (add_hook E h pkg m)"
  proof (cases ok)
    case False
    with s show ?thesis by (simp add: add_hook_def frame_refl)
  next
    case True
    show ?thesis
    proof (cases "h \<in> keys (hooks_dict m1)")
      case True
      with s \<open>ok\<close> show ?thesis by (simp add: add_hook_def e)
    next
      case False
      show ?thesis
      proof (cases fl)
        case (Continue cls)
        have "frame besides_hooks m2
           (case get_attr cls ''conn_type'' (conn_type cls) m2 of (ct, m3) \<Rightarrow>
            case get_attr cls ''conn_name_attr'' (conn_name_attr cls) m3 of (attr, m4) \<Rightarrow>
            case get_attr cls ''hook_name'' (hook_name cls) m4 of (hn, m5) \<Rightarrow>
              if falsy ct \<or> falsy attr \<or> falsy hn then m5
              else m5\<lparr>hooks_dict := AList.update (the ct)
                (HookInfo h (the attr) pkg (the hn)) (hooks_dict m5)\<rparr>)"
          by (rule add_hook_register_frame)
        with 2 have "frame besides_hooks m1
           (case get_attr cls ''conn_type'' (conn_type cls) m2 of (ct, m3) \<Rightarrow>
            case get_attr cls ''conn_name_attr'' (conn_name_attr cls) m3 of (attr, m4) \<Rightarrow>
            case get_attr cls ''hook_name'' (hook_name cls) m4 of (hn, m5) \<Rightarrow>
              if falsy ct \<or> falsy attr \<or> falsy hn then m5
              else m5\<lparr>hooks_dict := AList.update (the ct)
                (HookInfo h (the attr) pkg (the hn)) (hooks_dict m5)\<rparr>)"
          by (rule frame_trans)
        with s t \<open>ok\<close> False Continue show ?thesis
          by (simp add: add_hook_def)
      next
        case Return
        with s t \<open>ok\<close> False 2 show ?thesis by (simp add: add_hook_def)
      next
        case (Raise x)
        have "frame besides_hooks m1 (emit (Warning (ExceptionWhenImporting h pkg x)) m2)"
          using 2 e by (rule frame_trans)
        moreover have "frame besides_hooks m1 (emit (Debug (ExceptionWhenImporting h pkg ImportError)) m2)"
          using 2 d by (rule frame_trans)
        ultimately show ?thesis
          using s t \<open>ok\<close> False Raise by (cases x) (simp_all add: add_hook_def)
      qed
    qed
  qed
  with 1 show ?thesis by (rule frame_trans)
qed

lemma discover_hooks_frame: "frame besides_hooks m (discover_hooks E m)"
  unfolding discover_hooks_def
  by (rule frame_fold) (auto split: option.splits simp: frame_refl intro!: frame_fold add_hook_frame)

lemma add_checked_frame:
  assumes "\<And>m. frame besides_names m (ins m)"
  shows "frame besides_names m (add_checked E pkg c ins m)"
proof -
  obtain ok m1 where s: "sanity_check E pkg c m = (ok, m1)"
    by (cases "sanity_check E pkg c m")
  have 1: "frame besides_names m m1"
    using sanity_check_frame [of m E pkg c] s by (simp add: log_only_names)
  have "frame besides_names m (ins m1)"
    using 1 assms by (rule frame_trans)
  with 1 s show ?thesis
    by (cases ok) (simp_all add: add_checked_def)
qed

lemma names_fold_frame:
  assumes "\<And>n m. frame besides_names m (ins n m)"
  shows "frame besides_names m
     (fold (\<lambda>(pkg, provider). case sel (provider_info provider) of
          None \<Rightarrow> id
        | Some names \<Rightarrow> fold (\<lambda>n. add_checked E pkg (g n) (ins n)) names) d m)"
proof (rule frame_fold)
  fix x :: "string \<times> ProviderInfo" and m'
  obtain pkg provider where x: "x = (pkg, provider)"
    by (cases x)
  show "frame besides_names m'
     ((case x of (pkg, provider) \<Rightarrow> case sel (provider_info provider) of
          None \<Rightarrow> id
        | Some names \<Rightarrow> fold (\<lambda>n. add_checked E pkg (g n) (ins n)) names) m')"
  proof (cases "sel (provider_info provider)")
    case None
    with x show ?thesis by (simp add: frame_refl)
  next
    case (Some names)
    have "frame besides_names m' (fold (\<lambda>n. add_checked E pkg (g n) (ins n)) names m')"
      by (rule frame_fold) (rule add_checked_frame, rule assms)
    with x Some show ?thesis by simp
  qed
qed

lemma discover_extra_links_frame: "frame besides_names m (discover_extra_links E m)"
  unfolding discover_extra_links_def
  by (rule names_fold_frame [where g = "\<lambda>n. n"]) (simp add: frame_unfold besides_names_def)

lemma discover_logging_frame: "frame besides_names m (discover_logging E m)"
  unfolding discover_logging_def
  by (rule names_fold_frame [where g = "\<lambda>n. n"]) (simp add: frame_unfold besides_names_def)

lemma discover_secrets_backends_frame: "frame besides_names m (discover_secrets_backends E m)"
  unfolding discover_secrets_backends_def
  by (rule names_fold_frame [where g = "\<lambda>n. n"]) (simp add: frame_unfold besides_names_def)

lemma discover_auth_backends_frame: "frame besides_names m (discover_auth_backends E m)"
  unfolding discover_auth_backends_def
  by (rule names_fold_frame [where g = "\<lambda>n. n @ ''.init_app''"])
     (simp add: frame_unfold besides_names_def)

lemma add_widgets_lookup:
  "map_of (connection_form_widgets (add_widgets pkg cls ws m)) k =
     (case map_of (connection_form_widgets m) k of
        Some w \<Rightarrow> Some w
      | None \<Rightarrow> if startswith k ''extra__''
          then map_option (ConnectionFormWidgetInfo (dunder_name cls) pkg) (map_of ws k)
          else None)"
proof (induction pkg cls ws m rule: add_widgets.induct)
  case (1 pkg cls m)
  show ?case by (simp split: option.splits)
next
  case (2 pkg cls field_name fld rest m)
  let ?info = "ConnectionFormWidgetInfo (dunder_name cls) pkg"
  show ?case
  proof (cases "startswith field_name ''extra__''")
    case False
    with "2.IH" show ?thesis
      by (cases "k = field_name") (simp_all add: emit_def split: option.splits)
  next
    case True
    show ?thesis
    proof (cases "field_name \<in> keys (connection_form_widgets m)")
      case True
      then have "map_of (connection_form_widgets m) field_name \<noteq> None"
        by (simp add: keys_def map_of_eq_None_iff)
      then obtain w where "map_of (connection_form_widgets m) field_name = Some w"
        by blast
      with "2.IH" True \<open>startswith field_name ''extra__''\<close> show ?thesis
        by (cases "k = field_name") (simp_all add: emit_def split: option.splits)
    next
      case False
      then have n: "map_of (connection_form_widgets m) field_name = None"
        by (simp add: keys_def map_of_eq_None_iff)
      with "2.IH" False \<open>startswith field_name ''extra__''\<close> show ?thesis
        by (cases "k = field_name") (simp_all add: map_add_def split: option.splits)
    qed
  qed
qed

lemma sanity_check_True: "fst (sanity_check E pkg c m) \<Longrightarrow> sanity_check E pkg c m = (True, m)"
  unfolding sanity_check_def Let_def
  by (simp split: if_splits option.splits)

lemma widgets_add_hook_behaviours:
  "connection_form_widgets (snd (add_hook_behaviours E pkg cls m)) = connection_form_widgets m"
  unfolding add_hook_behaviours_def add_customized_fields_def
  by (simp add: emit_def split: option.splits sum.splits)

lemma widgets_after_try:
  assumes "fst (sanity_check E pkg h m)" and "h \<notin> keys (hooks_dict m)"
  shows "connection_form_widgets (add_hook E h pkg m) =
     connection_form_widgets (snd (add_hook_try E h pkg m))"
proof -
  obtain fl m2 where t: "add_hook_try E h pkg m = (fl, m2)"
    by (cases "add_hook_try E h pkg m")
  have "connection_form_widgets (add_hook E h pkg m) = connection_form_widgets m2"
  proof (cases fl)
    case (Continue cls)
    with assms t show ?thesis
      by (simp add: add_hook_def sanity_check_True get_attr_def emit_def split: option.splits)
  next
    case Return
    with assms t show ?thesis
      by (simp add: add_hook_def sanity_check_True)
  next
    case (Raise x)
    with assms t show ?thesis
      by (cases x) (simp_all add: add_hook_def sanity_check_True emit_def)
  qed
  with t show ?thesis by simp
qed

lemma try_with_allowed_widgets:
  assumes "rsplit_dot h = Some (mo, c)" and "import_class E mo c = Inr cls"
    and "get_connection_form_widgets cls = Some (Inr ws)"
    and "\<forall>w \<in> set ws. field_class (snd w) \<in> set ALLOWED_FIELD_CLASSES"
  shows "add_hook_try E h pkg m = add_hook_behaviours E pkg cls (add_widgets pkg cls ws m)"
proof -
  have "filter (\<lambda>w. field_class w \<notin> set ALLOWED_FIELD_CLASSES) (map snd ws) = []"
    using assms(4) by (simp add: filter_empty_conv)
  with assms(1-3) show ?thesis
    by (cases "ws = []") (simp_all add: add_hook_try_def)
qed

lemma prefix_example:
  "connection_form_widgets (add_hook prefix_env ''acme.hooks.svc.SvcHook'' ''acme'' init) =
     [(''extra__svc__id'', ConnectionFormWidgetInfo ''SvcHook'' ''acme'' (Field StringField ''Id''))]"
  by (simp add: run_simps prefix_env_def bare_env_def hook_of_def)

lemma extends_refl: "extends P d d"
  by (simp add: extends_def keys_def)

lemma extends_trans:
  assumes "extends P d d'" and "extends P d' d''"
  shows "extends P d d''"
proof -
  from assms(1) obtain new where 1: "d' = d @ new" "distinct (map fst new)"
      "keys new \<inter> keys d = {}" "list_all P new"
    unfolding extends_def by blast
  from assms(2) obtain new' where 2: "d'' = d' @ new'" "distinct (map fst new')"
      "keys new' \<inter> keys d' = {}" "list_all P new'"
    unfolding extends_def by blast
  have "d'' = d @ (new @ new') \<and> distinct (map fst (new @ new')) \<and>
      keys (new @ new') \<inter> keys d = {} \<and> list_all P (new @ new')"
    using 1 2 by (auto simp: keys_def)
  then show ?thesis
    unfolding extends_def by blast
qed

lemma extends_one: "k \<notin> keys d \<Longrightarrow> P (k, v) \<Longrightarrow> extends P d (d @ [(k, v)])"
  by (simp add: extends_def keys_def)

lemma extends_fold:
  "(\<And>x m. extends P (provider_dict m) (provider_dict (g x m))) \<Longrightarrow>
     extends P (provider_dict m) (provider_dict (fold g xs m))"
proof (induction xs arbitrary: m)
  case Nil
  show ?case by (simp add: extends_refl)
next
  case (Cons x xs)
  have "extends P (provider_dict m) (provider_dict (g x m))" by (rule Cons.prems)
  moreover have "extends P (provider_dict (g x m)) (provider_dict (fold g xs (g x m)))"
    by (rule Cons.IH) (rule Cons.prems)
  ultimately have "extends P (provider_dict m) (provider_dict (fold g xs (g x m)))"
    by (rule extends_trans)
  then show ?case by simp
qed

lemma local_file_extends:
  "extends (from_source E) (provider_dict m)
     (provider_dict (add_provider_info_from_local_source_file E path pkg m))"
proof -
  have "extends (from_source E) (provider_dict m) (provider_dict m @ [(pkg, ProviderInfo v info)])"
    if "pkg \<notin> keys (provider_dict m)" "safe_load E path = Inr info" "versions info = Some (v # vs)"
    for v vs info
    using that by (intro extends_one) (auto simp: from_source_def)
  then show ?thesis
    unfolding add_provider_info_from_local_source_file_def Let_def
    by (auto simp: emit_def extends_refl split: sum.splits option.splits list.splits)
qed

lemma walk_extends:
  "extends (from_source E) (provider_dict m) (provider_dict (walk_folder E root_path folder t m))"
  "extends (from_source E) (provider_dict m) (provider_dict (walk_subdirs E root_path folder ts m))"
proof (induction E root_path folder t m and E root_path folder ts m rule: walk_folder_walk_subdirs.induct)
  case (1 E root_path folder fs subs m)
  let ?found = "filter (\<lambda>f. f = ''provider.yaml'') fs"
  let ?m1 = "fold (\<lambda>filename. add_provider_info_from_local_source_file E
                 (path_join folder filename) (local_package_name root_path folder)) ?found m"
  have a: "extends (from_source E) (provider_dict m) (provider_dict ?m1)"
    by (rule extends_fold) (rule local_file_extends)
  show ?case
  proof (cases "?found = []")
    case True
    then have "extends (from_source E) (provider_dict ?m1)
        (provider_dict (walk_subdirs E root_path folder subs ?m1))"
      using "1.IH" by simp
    with a have "extends (from_source E) (provider_dict m)
        (provider_dict (walk_subdirs E root_path folder subs ?m1))"
      by (rule extends_trans)
    with True show ?thesis
      by (simp add: Let_def)
  next
    case False
    with a show ?thesis by (simp add: Let_def)
  qed
next
  case (2 E root_path folder m)
  show ?case by (simp add: extends_refl)
next
  case (3 E root_path folder d t rest m)
  have "extends (from_source E) (provider_dict m)
     (provider_dict (walk_subdirs E root_path folder rest (walk_folder E root_path (path_join folder d) t m)))"
    using "3.IH" by (rule extends_trans)
  then show ?case by simp
qed

lemma local_sources_extends:
  "extends (from_source E) (provider_dict m)
     (provider_dict (discover_all_airflow_builtin_providers_from_local_sources E m))"
proof (cases "providers_path E")
  case None
  then show ?thesis
    by (simp add: discover_all_airflow_builtin_providers_from_local_sources_def emit_def extends_refl)
next
  case (Some roots)
  have "extends (from_source E) (provider_dict m) (provider_dict
     (fold (\<lambda>(path, t). add_provider_info_from_local_source_files_on_path E path t) roots m))"
    by (rule extends_fold)
       (simp add: add_provider_info_from_local_source_files_on_path_def walk_extends split: prod.splits)
  with Some show ?thesis
    by (simp add: discover_all_airflow_builtin_providers_from_local_sources_def)
qed

lemma package_extends:
  assumes "dist \<in> set ds"
  shows "extends (from_package ds) (provider_dict m)
     (provider_dict (snd (discover_provider_from_package E dist m)))"
proof -
  have "extends (from_package ds) (provider_dict m)
      (provider_dict m @ [(metadata_name dist, ProviderInfo (dist_version dist) info)])"
    if "metadata_name dist \<notin> keys (provider_dict m)" "load dist = Inr info" for info
    using that assms by (intro extends_one) (auto simp: from_package_def)
  then show ?thesis
    unfolding discover_provider_from_package_def Let_def
    by (auto simp: emit_def extends_refl split: sum.splits option.splits)
qed

lemma packages_loop_extends:
  "set ds \<subseteq> set all \<Longrightarrow> extends (from_package all) (provider_dict m)
     (provider_dict (snd (discover_packages_loop E ds m)))"
proof (induction ds arbitrary: m)
  case Nil
  show ?case by (simp add: extends_refl)
next
  case (Cons dist ds)
  obtain r m1 where s: "discover_provider_from_package E dist m = (r, m1)"
    by (cases "discover_provider_from_package E dist m")
  have 1: "extends (from_package all) (provider_dict m) (provider_dict m1)"
    using package_extends [of dist all m E] s Cons.prems by simp
  show ?case
  proof (cases r)
    case None
    have "extends (from_package all) (provider_dict m1)
       (provider_dict (snd (discover_packages_loop E ds m1)))"
      using Cons.IH [of m1] Cons.prems by simp
    with 1 have "extends (from_package all) (provider_dict m)
       (provider_dict (snd (discover_packages_loop E ds m1)))"
      by (rule extends_trans)
    with None s show ?thesis by simp
  next
    case (Some e)
    with s 1 show ?thesis by simp
  qed
qed

lemma local_file_agree:
  "agree m m' \<Longrightarrow> agree (add_provider_info_from_local_source_file E path pkg m)
     (add_provider_info_from_local_source_file E path pkg m')"
  unfolding add_provider_info_from_local_source_file_def Let_def agree_def
  by (simp add: emit_def split: sum.splits option.splits list.splits)

lemma fold_agree:
  "(\<And>x m m'. agree m m' \<Longrightarrow> agree (g x m) (g x m')) \<Longrightarrow> agree m m' \<Longrightarrow>
     agree (fold g xs m) (fold g xs m')"
  by (induction xs arbitrary: m m') simp_all

lemma walk_agree:
  "\<forall>m'. agree m m' \<longrightarrow> agree (walk_folder E root_path folder t m) (walk_folder E root_path folder t m')"
  "\<forall>m'. agree m m' \<longrightarrow> agree (walk_subdirs E root_path folder ts m) (walk_subdirs E root_path folder ts m')"
proof (induction E root_path folder t m and E root_path folder ts m rule: walk_folder_walk_subdirs.induct)
  case (1 E root_path folder fs subs m)
  let ?found = "filter (\<lambda>f. f = ''provider.yaml'') fs"
  let ?g = "\<lambda>filename. add_provider_info_from_local_source_file E
                 (path_join folder filename) (local_package_name root_path folder)"
  show ?case
  proof (intro allI impI)
    fix m'
    assume a: "agree m m'"
    have b: "agree (fold ?g ?found m) (fold ?g ?found m')"
      using local_file_agree a by (rule fold_agree)
    show "agree (walk_folder E root_path folder (Dir fs subs) m)
       (walk_folder E root_path folder (Dir fs subs) m')"
    proof (cases "?found = []")
      case True
      with "1.IH" b have "agree (walk_subdirs E root_path folder subs (fold ?g ?found m))
         (walk_subdirs E root_path folder subs (fold ?g ?found m'))"
        by simp
      with True show ?thesis by (simp add: Let_def)
    next
      case False
      with b show ?thesis by (simp add: Let_def)
    qed
  qed
next
  case (2 E root_path folder m)
  show ?case by simp
next
  case (3 E root_path folder d t rest m)
  then show ?case by simp
qed

lemma local_sources_agree:
  assumes "agree m m'"
  shows "agree (discover_all_airflow_builtin_providers_from_local_sources E m)
     (discover_all_airflow_builtin_providers_from_local_sources E m')"
proof (cases "providers_path E")
  case None
  with assms show ?thesis
    by (simp add: discover_all_airflow_builtin_providers_from_local_sources_def agree_def emit_def)
next
  case (Some roots)
  have "agree (fold (\<lambda>(path, t). add_provider_info_from_local_source_files_on_path E path t) roots m)
     (fold (\<lambda>(path, t). add_provider_info_from_local_source_files_on_path E path t) roots m')"
    using _ assms
    by (rule fold_agree)
       (simp add: add_provider_info_from_local_source_files_on_path_def walk_agree split: prod.splits)
  with Some show ?thesis
    by (simp add: discover_all_airflow_builtin_providers_from_local_sources_def)
qed

lemma local_sources_emit:
  "provider_dict (discover_all_airflow_builtin_providers_from_local_sources E (emit r m)) =
   provider_dict (discover_all_airflow_builtin_providers_from_local_sources E m)"
  using local_sources_agree [of "emit r m" m E] by (simp add: agree_def emit_def)

lemma set_sorted_items: "set (sorted_items d) = set d"
  by (simp add: sorted_items_def)

lemma list_result_set:
  assumes "''list'' \<notin> keys (initialized_cache m)"
  shows "set (provider_dict (snd (initialize_providers_list E m))) =
     set (provider_dict (snd (discover_all_providers_from_packages E
       (discover_all_airflow_builtin_providers_from_local_sources E
          (emit (Debug (Initializing ''list'')) m)))))"
  using assms unfolding initialize_providers_list_def provider_info_cache_def
  by (simp add: emit_def set_sorted_items split: prod.splits option.splits)

lemma extends_cases:
  assumes "extends P d d'" and "e \<in> set d'"
  shows "e \<in> set d \<or> (fst e \<notin> keys d \<and> P e)"
proof -
  from assms(1) obtain new where 1: "d' = d @ new" "keys new \<inter> keys d = {}" "list_all P new"
    unfolding extends_def by blast
  show ?thesis
  proof (cases "e \<in> set d")
    case True
    then show ?thesis by simp
  next
    case False
    with 1 assms(2) have n: "e \<in> set new" by simp
    then have "fst e \<in> keys new" by (simp add: keys_def)
    with 1(2) have "fst e \<notin> keys d" by blast
    moreover from n 1(3) have "P e" by (simp add: list_all_iff)
    ultimately show ?thesis by simp
  qed
qed

lemma extends_distinct:
  assumes "extends P d d'" and "distinct (map fst d)"
  shows "distinct (map fst d')"
proof -
  from assms(1) obtain new where 1: "d' = d @ new" "distinct (map fst new)" "keys new \<inter> keys d = {}"
    unfolding extends_def by blast
  with assms(2) show ?thesis
    by (auto simp: keys_def)
qed

lemma extends_keeps:
  assumes "extends P d d'" and "e \<in> set d"
  shows "e \<in> set d'"
  using assms unfolding extends_def by auto

lemma filter_key_distinct:
  "distinct (map fst d) \<Longrightarrow> (k, p) \<in> set d \<Longrightarrow> filter (\<lambda>e. fst e = k) d = [(k, p)]"
proof (induction d)
  case Nil
  then show ?case by simp
next
  case (Cons e d)
  show ?case
  proof (cases "e = (k, p)")
    case True
    with Cons.prems have "\<forall>x \<in> set d. fst x \<noteq> k"
      by force
    then have "filter (\<lambda>e. fst e = k) d = []"
      by (simp add: filter_empty_conv)
    with True show ?thesis by simp
  next
    case False
    with Cons.prems have in_d: "(k, p) \<in> set d" by simp
    then have "k \<in> fst ` set d" by force
    with Cons.prems have "fst e \<noteq> k" by auto
    with Cons.IH Cons.prems in_d show ?thesis by simp
  qed
qed

lemma distinct_sorted_items: "distinct (map fst (sorted_items d)) = distinct (map fst d)"
  by (simp add: sorted_items_def distinct_map)

lemma list_result_distinct:
  assumes "''list'' \<notin> keys (initialized_cache m)"
  shows "distinct (map fst (provider_dict (snd (initialize_providers_list E m)))) =
     distinct (map fst (provider_dict (snd (discover_all_providers_from_packages E
       (discover_all_airflow_builtin_providers_from_local_sources E
          (emit (Debug (Initializing ''list'')) m))))))"
  using assms unfolding initialize_providers_list_def provider_info_cache_def
  by (simp add: emit_def distinct_sorted_items split: prod.splits option.splits)

lemmas shadow_simps = shadow_env_def bare_env_def source_manifest_def installed_manifest_def
  no_manifest_def

lemma shadow_local:
  "provider_dict (discover_all_airflow_builtin_providers_from_local_sources shadow_env init) =
     [(''apache-airflow-providers-a'', ProviderInfo ''1.0.0'' source_manifest)]"
  by (simp add: run_simps shadow_simps)

lemma shadow_table:
  "provider_dict (snd (initialize_providers_list shadow_env init)) =
     [(''apache-airflow-providers-a'', ProviderInfo ''1.0.0'' source_manifest),
      (''foo'', ProviderInfo ''2.0.0'' installed_manifest)]"
  by (simp add: run_simps shadow_simps)

lemma packages_loop_append:
  "discover_packages_loop E (xs @ ys) m =
     (case discover_packages_loop E xs m of
        (Some e, m1) \<Rightarrow> (Some e, m1)
      | (None, m1) \<Rightarrow> discover_packages_loop E ys m1)"
  by (induction xs arbitrary: m) (simp_all split: prod.splits option.splits)

lemma local_file_failure:
  assumes "\<forall>info v vs. safe_load E path = Inr info \<and> provider_schema_valid E info \<and>
      versions info = Some (v # vs) \<longrightarrow> pkg \<in> keys (provider_dict m)"
  shows "\<exists>w. add_provider_info_from_local_source_file E path pkg m =
     emit (Warning w) (emit (Debug (LoadingFromPath pkg path)) m)"
  using assms unfolding add_provider_info_from_local_source_file_def Let_def
  by (auto simp: emit_def split: sum.splits option.splits list.splits)














lemma keys_update: "keys (AList.update k v al) = insert k (keys al)"
  by (simp add: keys_def dom_update)

lemma cache_wrap_cases:
  assumes "provider_info_cache c func m = (r, m1)"
  obtains (hit) "c \<in> keys (initialized_cache m)" "r = None" "m1 = m"
  | (raised) e where "c \<notin> keys (initialized_cache m)"
      "func (emit (Debug (Initializing c)) m) = (Some e, m1)" "r = Some e"
  | (completed) mb where "c \<notin> keys (initialized_cache m)"
      "func (emit (Debug (Initializing c)) m) = (None, mb)" "r = None"
      "m1 = emit (Debug (InitializationTook c))
         (mb\<lparr>initialized_cache := AList.update c True (initialized_cache mb)\<rparr>)"
  using assms unfolding provider_info_cache_def
  by (auto split: if_splits prod.splits option.splits)


lemma list_body_frame:
  "frame besides_providers m (snd (discover_all_providers_from_packages E
      (discover_all_airflow_builtin_providers_from_local_sources E m)))"
  unfolding discover_all_providers_from_packages_def
  by (rule frame_trans [OF local_sources_frame packages_loop_frame])



lemma hooks_sorting_frame:
  "frame besides_hooks m (let m1 = discover_hooks E m in
       m1\<lparr>hooks_dict := sorted_items (hooks_dict m1),
          connection_form_widgets := sorted_items (connection_form_widgets m1),
          field_behaviours := sorted_items (field_behaviours m1)\<rparr>)"
proof -
  have "frame besides_hooks m' (m'\<lparr>hooks_dict := h, connection_form_widgets := w,
      field_behaviours := f\<rparr>)" for m' h w f
    by (simp add: frame_def appended_def quiet_def besides_hooks_def)
  with discover_hooks_frame show ?thesis
    unfolding Let_def by (rule frame_trans)
qed























lemma construction_runs_list_again:
  "fst (access shadow_env providers init) =
     Inr (Providers [(''apache-airflow-providers-a'', ProviderInfo ''1.0.0'' source_manifest),
                     (''foo'', ProviderInfo ''2.0.0'' installed_manifest)]) \<and>
   executions ''list'' (snd (access shadow_env providers init)) = 1 \<and>
   executions ''list''
     (snd (access shadow_env providers (dunder_init (snd (access shadow_env providers init))))) = 2"
  by (simp add: dunder_init_def run_simps shadow_simps executions_def)

lemma sorted_sorted_items: "sorted (map fst (sorted_items d))"
  by (simp add: sorted_items_def)

lemma list_settled:
  assumes "initialize_providers_list E m = (r, m1)" and "settled m"
  shows "settled m1 \<and> (r = None \<longrightarrow> ''list'' \<in> keys (initialized_cache m1))"
  using assms(1) unfolding initialize_providers_list_def
proof (cases rule: cache_wrap_cases)
  case hit
  with assms(2) show ?thesis by simp
next
  case (raised e)
  let ?m0 = "emit (Debug (Initializing ''list'')) m"
  have "frame besides_providers ?m0 (snd (discover_all_providers_from_packages E
      (discover_all_airflow_builtin_providers_from_local_sources E ?m0)))"
    by (rule list_body_frame)
  moreover from raised(2) have "snd (discover_all_providers_from_packages E
      (discover_all_airflow_builtin_providers_from_local_sources E ?m0)) = m1"
    by (simp split: prod.splits option.splits)
  ultimately have "besides_providers m1 = besides_providers ?m0"
    by (simp add: frame_def)
  with assms(2) raised(1,3) show ?thesis
    by (simp add: settled_def besides_providers_def emit_def)
next
  case (completed mb)
  let ?m0 = "emit (Debug (Initializing ''list'')) m"
  let ?b = "discover_all_providers_from_packages E
      (discover_all_airflow_builtin_providers_from_local_sources E ?m0)"
  have f: "frame besides_providers ?m0 (snd ?b)"
    by (rule list_body_frame)
  from completed(2) have mb: "mb = (snd ?b)\<lparr>provider_dict := sorted_items (provider_dict (snd ?b))\<rparr>"
    by (simp split: prod.splits option.splits)
  from f have "besides_providers (snd ?b) = besides_providers ?m0"
    by (simp add: frame_def)
  with assms(2) completed(1,3) show ?thesis
    by (simp add: completed(4) mb settled_def besides_providers_def emit_def keys_update
        sorted_sorted_items)
qed

lemma after_list_names_settled:
  assumes "provider_info_cache c (after_list E D) m = (r, m1)" and "settled m"
    and "c \<noteq> ''list''" and "c \<noteq> ''hooks''" and "\<And>m. frame besides_names m (D m)"
  shows "settled m1"
  using assms(1)
proof (cases rule: cache_wrap_cases)
  case hit
  with assms(2) show ?thesis by simp
next
  case (raised e)
  let ?m0 = "emit (Debug (Initializing c)) m"
  have s0: "settled ?m0"
    using assms(2) by (simp add: settled_def emit_def)
  obtain r' m' where l: "initialize_providers_list E ?m0 = (r', m')"
    by (cases "initialize_providers_list E ?m0")
  with raised(2) have "m1 = m'"
    by (simp add: after_list_def split: option.splits)
  with list_settled [OF l s0] show ?thesis by simp
next
  case (completed mb)
  let ?m0 = "emit (Debug (Initializing c)) m"
  have s0: "settled ?m0"
    using assms(2) by (simp add: settled_def emit_def)
  obtain r' m' where l: "initialize_providers_list E ?m0 = (r', m')"
    by (cases "initialize_providers_list E ?m0")
  with completed(2) have mb: "mb = D m'"
    by (simp add: after_list_def split: option.splits)
  from assms(5) [of m'] have "besides_names (D m') = besides_names m'"
    by (simp add: frame_def)
  with list_settled [OF l s0] have "settled (D m')"
    by (simp add: settled_def besides_names_def)
  with assms(3,4) show ?thesis
    by (simp add: completed(4) mb settled_def emit_def keys_update)
qed

lemma hooks_settled:
  assumes "initialize_providers_hooks E m = (r, m1)" and "settled m"
  shows "settled m1 \<and> (r = None \<longrightarrow> ''hooks'' \<in> keys (initialized_cache m1))"
  using assms(1) unfolding initialize_providers_hooks_def
proof (cases rule: cache_wrap_cases)
  case hit
  with assms(2) show ?thesis by simp
next
  case (raised e)
  let ?m0 = "emit (Debug (Initializing ''hooks'')) m"
  have s0: "settled ?m0"
    using assms(2) by (simp add: settled_def emit_def)
  obtain r' m' where l: "initialize_providers_list E ?m0 = (r', m')"
    by (cases "initialize_providers_list E ?m0")
  with raised(2) have "m1 = m'"
    by (simp add: after_list_def split: option.splits)
  with list_settled [OF l s0] raised(3) show ?thesis by simp
next
  case (completed mb)
  let ?m0 = "emit (Debug (Initializing ''hooks'')) m"
  let ?D = "\<lambda>m. let m1 = discover_hooks E m in
       m1\<lparr>hooks_dict := sorted_items (hooks_dict m1),
          connection_form_widgets := sorted_items (connection_form_widgets m1),
          field_behaviours := sorted_items (field_behaviours m1)\<rparr>"
  have s0: "settled ?m0"
    using assms(2) by (simp add: settled_def emit_def)
  obtain r' m' where l: "initialize_providers_list E ?m0 = (r', m')"
    by (cases "initialize_providers_list E ?m0")
  with completed(2) have mb: "mb = ?D m'"
    by (simp add: after_list_def split: option.splits)
  have "besides_hooks (?D m') = besides_hooks m'"
    using hooks_sorting_frame [of m' E] by (simp add: frame_def)
  moreover have "sorted (map fst (hooks_dict (?D m'))) \<and>
      sorted (map fst (connection_form_widgets (?D m'))) \<and>
      sorted (map fst (field_behaviours (?D m')))"
    by (simp add: Let_def sorted_sorted_items)
  ultimately have "settled (?D m') \<and> sorted (map fst (hooks_dict (?D m'))) \<and>
      sorted (map fst (connection_form_widgets (?D m'))) \<and>
      sorted (map fst (field_behaviours (?D m')))"
    using list_settled [OF l s0] by (simp add: settled_def besides_hooks_def)
  then show ?thesis
    by (simp add: completed(3,4) mb [symmetric] settled_def emit_def keys_update)
qed

lemma access_settled:
  assumes "settled m"
  shows "settled (snd (access E a m)) \<and>
     (\<forall>v. fst (access E a m) = Inr v \<longrightarrow> sorted (view_keys v))"
proof -
  have n: "settled (snd (returning (provider_info_cache c (after_list E D)) (\<lambda>m. Names (ns m)) m)) \<and>
     (\<forall>v. fst (returning (provider_info_cache c (after_list E D)) (\<lambda>m. Names (ns m)) m) = Inr v \<longrightarrow>
        sorted (view_keys v))"
    if "c \<noteq> ''list''" "c \<noteq> ''hooks''" "\<And>m. frame besides_names m (D m)" "\<And>m. sorted (ns m)"
    for c D ns
  proof -
    obtain r m1 where s: "provider_info_cache c (after_list E D) m = (r, m1)"
      by (cases "provider_info_cache c (after_list E D) m")
    from after_list_names_settled [OF s assms that(1-3)] s that(4) show ?thesis
      by (cases r) (auto simp: returning_def)
  qed
  obtain rl ml where l: "initialize_providers_list E m = (rl, ml)"
    by (cases "initialize_providers_list E m")
  obtain rh mh where h: "initialize_providers_hooks E m = (rh, mh)"
    by (cases "initialize_providers_hooks E m")
  note ls = list_settled [OF l assms]
  note hs = hooks_settled [OF h assms]
  show ?thesis
  proof (cases a)
    case providers
    with l ls show ?thesis
      by (cases rl) (auto simp: returning_def settled_def)
  next
    case hooks
    with h hs show ?thesis
      by (cases rh) (auto simp: returning_def settled_def)
  next
    case extra_links_class_names
    have "''extra_links'' \<noteq> ''list''" "''extra_links'' \<noteq> ''hooks''"
      by simp_all
    from n [OF this discover_extra_links_frame,
        of "\<lambda>m. sorted_list_of_set (extra_link_class_name_set m)"] extra_links_class_names
    show ?thesis
      by (simp add: initialize_providers_extra_links_def)
  next
    case connection_form_widgets_view
    with h hs show ?thesis
      by (cases rh) (auto simp: returning_def settled_def)
  next
    case field_behaviours_view
    with h hs show ?thesis
      by (cases rh) (auto simp: returning_def settled_def)
  next
    case logging_class_names
    have "''logging'' \<noteq> ''list''" "''logging'' \<noteq> ''hooks''"
      by simp_all
    from n [OF this discover_logging_frame,
        of "\<lambda>m. sorted_list_of_set (logging_class_name_set m)"] logging_class_names
    show ?thesis
      by (simp add: initialize_providers_logging_def)
  next
    case secrets_backend_class_names
    have "''secrets_backends'' \<noteq> ''list''" "''secrets_backends'' \<noteq> ''hooks''"
      by simp_all
    from n [OF this discover_secrets_backends_frame,
        of "\<lambda>m. sorted_list_of_set (secrets_backend_class_name_set m)"] secrets_backend_class_names
    show ?thesis
      by (simp add: initialize_providers_secrets_backends_def)
  next
    case auth_backend_module_names
    have "''auth_backends'' \<noteq> ''list''" "''auth_backends'' \<noteq> ''hooks''"
      by simp_all
    from n [OF this discover_auth_backends_frame,
        of "\<lambda>m. sorted_list_of_set (api_auth_backend_module_names m)"] auth_backend_module_names
    show ?thesis
      by (simp add: initialize_providers_auth_backends_def)
  qed
qed

lemma accesses_settled: "settled m \<Longrightarrow> settled (accesses as m)"
proof (induction as arbitrary: m)
  case Nil
  then show ?case by simp
next
  case (Cons x as)
  obtain E a where x: "x = (E, a)" by (cases x)
  from Cons.prems have "settled (snd (access E a m))"
    by (simp add: access_settled)
  then have "settled (accesses as (snd (access E a m)))"
    by (rule Cons.IH)
  with x show ?case by simp
qed

section \<open>Verified properties\<close>

subsection \<open>Prefix filtering of widget fields\<close>

text \<open>
  C7. For a hook class that passes the sanity check, is loaded, and declares a widget set
  whose field kinds are all in the allow-list, hook extraction registers the fields one
  by one: a field name without the \<open>extra__\<close> prefix is skipped on its own, and every
  prefixed field of the same set is in the widget table afterwards (a name that was
  already there keeps its earlier record, a new one gets the record of this hook). So the
  set \<open>{extra__svc__id: StringField, token: StringField}\<close> registers exactly
  \<open>extra__svc__id\<close>.
\<close>

theorem prefix_filtering:
  assumes "fst (sanity_check E pkg h m)" and "h \<notin> keys (hooks_dict m)"
    and "rsplit_dot h = Some (mo, c)" and "import_class E mo c = Inr cls"
    and "get_connection_form_widgets cls = Some (Inr ws)"
    and "\<forall>w \<in> set ws. field_class (snd w) \<in> set ALLOWED_FIELD_CLASSES"
  shows "map_of (connection_form_widgets (add_hook E h pkg m)) k =
     (case map_of (connection_form_widgets m) k of
        Some w \<Rightarrow> Some w
      | None \<Rightarrow> if startswith k ''extra__''
          then map_option (ConnectionFormWidgetInfo (dunder_name cls) pkg) (map_of ws k)
          else None)"
proof -
  have "connection_form_widgets (add_hook E h pkg m) =
      connection_form_widgets (add_widgets pkg cls ws m)"
    using assms
    by (simp add: widgets_after_try try_with_allowed_widgets widgets_add_hook_behaviours)
  then show ?thesis
    by (simp add: add_widgets_lookup)
qed

theorem prefix_filtering_witness:
  "fst (sanity_check prefix_env ''acme'' ''acme.hooks.svc.SvcHook'' init) \<and>
   ''acme.hooks.svc.SvcHook'' \<notin> keys (hooks_dict init) \<and>
   rsplit_dot ''acme.hooks.svc.SvcHook'' = Some (''acme.hooks.svc'', ''SvcHook'') \<and>
   import_class prefix_env ''acme.hooks.svc'' ''SvcHook'' = Inr (hook_of ''SvcHook'' ''svc''
     [(''extra__svc__id'', Field StringField ''Id''), (''token'', Field StringField ''Token'')]) \<and>
   map_of (connection_form_widgets (add_hook prefix_env ''acme.hooks.svc.SvcHook'' ''acme'' init))
     ''extra__svc__id'' = Some (ConnectionFormWidgetInfo ''SvcHook'' ''acme'' (Field StringField ''Id'')) \<and>
   map_of (connection_form_widgets (add_hook prefix_env ''acme.hooks.svc.SvcHook'' ''acme'' init))
     ''token'' = None \<and>
   connection_form_widgets (add_hook prefix_env ''acme.hooks.svc.SvcHook'' ''acme'' init) =
     [(''extra__svc__id'', ConnectionFormWidgetInfo ''SvcHook'' ''acme'' (Field StringField ''Id''))]"
proof -
  let ?ws = "[(''extra__svc__id'', Field StringField ''Id''), (''token'', Field StringField ''Token'')]"
  have 1: "fst (sanity_check prefix_env ''acme'' ''acme.hooks.svc.SvcHook'' init)"
    by (simp add: sanity_check_def prefix_env_def bare_env_def startswith_def)
  have 2: "''acme.hooks.svc.SvcHook'' \<notin> keys (hooks_dict init)"
    by (simp add: init_def keys_def)
  have 3: "rsplit_dot ''acme.hooks.svc.SvcHook'' = Some (''acme.hooks.svc'', ''SvcHook'')"
    by (simp add: rsplit_dot_def)
  have 4: "import_class prefix_env ''acme.hooks.svc'' ''SvcHook'' = Inr (hook_of ''SvcHook'' ''svc'' ?ws)"
    by (simp add: prefix_env_def bare_env_def)
  have 5: "get_connection_form_widgets (hook_of ''SvcHook'' ''svc'' ?ws) = Some (Inr ?ws)"
    by (simp add: hook_of_def)
  have 6: "\<forall>w \<in> set ?ws. field_class (snd w) \<in> set ALLOWED_FIELD_CLASSES"
    by (simp add: ALLOWED_FIELD_CLASSES_def)
  have 7: "connection_form_widgets init = []" "dunder_name (hook_of ''SvcHook'' ''svc'' ?ws) = ''SvcHook''"
    by (simp_all add: init_def hook_of_def)
  show ?thesis
    using 1 2 3 4 prefix_filtering [OF 1 2 3 4 5 6, of "''extra__svc__id''"]
      prefix_filtering [OF 1 2 3 4 5 6, of "''token''"] prefix_example
    by (simp add: 7 startswith_def)
qed

subsection \<open>Distributions already in the provider table\<close>

text \<open>
  C9. In the installed-package scan a distribution whose name is already a key of the
  provider table is skipped before its entry point is loaded and before its manifest is
  validated or its name compared: the manager, log included, is exactly as before, no
  exception is raised and the scan goes on with the next distribution, whatever loading
  the entry point would have given.
\<close>

theorem present_distribution_skipped:
  "metadata_name dist \<in> keys (provider_dict m) \<Longrightarrow>
     discover_provider_from_package E dist m = (None, m) \<and>
     discover_packages_loop E (dist # rest) m = discover_packages_loop E rest m"
  by (simp add: discover_provider_from_package_def keys_def map_of_eq_None_iff)

theorem present_distribution_skipped_witness:
  "metadata_name unloadable_dist \<in> keys (provider_dict taken_state) \<and>
   metadata_name misnamed_dist \<in> keys (provider_dict taken_state) \<and>
   load unloadable_dist = Inl ImportError \<and>
   \<not> provider_schema_valid bare_env (no_manifest\<lparr>package_name := Some ''other''\<rparr>) \<and>
   discover_packages_loop bare_env [unloadable_dist, misnamed_dist] taken_state = (None, taken_state)"
proof -
  have 1: "metadata_name unloadable_dist \<in> keys (provider_dict taken_state)"
    by (simp add: unloadable_dist_def taken_state_def keys_def)
  have 2: "metadata_name misnamed_dist \<in> keys (provider_dict taken_state)"
    by (simp add: misnamed_dist_def taken_state_def keys_def)
  have 3: "\<not> provider_schema_valid bare_env (no_manifest\<lparr>package_name := Some ''other''\<rparr>)"
    by (simp add: bare_env_def no_manifest_def)
  show ?thesis
    using 1 2 3 present_distribution_skipped [OF 1, of bare_env "[misnamed_dist]"]
      present_distribution_skipped [OF 2, of bare_env "[]"]
    by (simp add: unloadable_dist_def)
qed

subsection \<open>Two hooks of one connection type\<close>

text \<open>
  C1 asks that of two hook classes declaring the same connection type the one processed
  first stays in the hook table and the later one is logged and dropped. The duplicate
  test of \<open>_add_hook\<close> looks the hook's class name up in a table keyed by connection type, so
  it does not fire, and the final assignment replaces the earlier record. Evaluated on two
  providers \<open>acme\<close> and \<open>zeta\<close> whose hook classes both declare connection type \<open>foo\<close>: the
  hook table holds the record of \<open>zeta\<close>, processed second, and no warning about the hook
  is logged, while the field-behaviour table, whose duplicate test uses the connection
  type, keeps the document of \<open>acme\<close> and logs the second.
\<close>

theorem later_hook_replaces_earlier:
  "fst (access two_hooks_env hooks init) =
     Inr (Hooks [(''foo'', HookInfo ''zeta.hooks.ZetaFooHook'' ''conn_id'' ''zeta'' ''ZetaFooHook'')]) \<and>
   fst (access two_hooks_env field_behaviours_view init) =
     Inr (Behaviours [(''foo'', [(''relabeling'', JObject [(''login'', JString ''AcmeFooHook'')])])]) \<and>
   log (snd (access two_hooks_env hooks init)) =
     [Debug (Initializing ''hooks''), Debug (Initializing ''list''),
      Debug (LoadingFromPackage ''acme''), Debug (LoadingFromPackage ''zeta''),
      Debug (InitializationTook ''list''),
      Warning (ConnectionTypeAlreadyAdded ''foo'' ''zeta'' ''ZetaFooHook''),
      Debug (InitializationTook ''hooks'')]"
  by (simp add: run_simps two_hooks_env_def bare_env_def no_manifest_def hook_of_def)

subsection \<open>A widget set with a field kind outside the allow-list\<close>

text \<open>
  C2 as stated says that after a widget set with a disallowed field kind the hook's
  field-behaviour document can still be registered and the hook is still inserted into
  the hook table. On the code the check returns from \<open>_add_hook\<close>: for a hook class with
  all three attributes, a field-behaviour document and the widgets
  \<open>{extra__svc__id: StringField, extra__svc__token: DateField}\<close>, both tables stay empty
  (with only allowed kinds the same class is inserted).
\<close>

theorem unsupported_field_keeps_hook_out:
  "import_class unsupported_env ''acme.hooks.svc'' ''SvcHook'' =
     Inr (hook_of ''SvcHook'' ''svc''
       [(''extra__svc__id'', Field StringField ''Id''),
        (''extra__svc__token'', Field (OtherField ''DateField'') ''Token'')]) \<and>
   conn_type (hook_of ''SvcHook'' ''svc'' []) = Some ''svc'' \<and>
   hooks_dict (add_hook unsupported_env ''acme.hooks.svc.SvcHook'' ''acme'' init) = [] \<and>
   field_behaviours (add_hook unsupported_env ''acme.hooks.svc.SvcHook'' ''acme'' init) = [] \<and>
   hooks_dict (add_hook prefix_env ''acme.hooks.svc.SvcHook'' ''acme'' init) =
     [(''svc'', HookInfo ''acme.hooks.svc.SvcHook'' ''conn_id'' ''acme'' ''SvcHook'')]"
  by (simp add: run_simps unsupported_env_def prefix_env_def bare_env_def hook_of_def)

text \<open>
  C2, amended. For a hook class that passes the sanity check, is loaded, and declares a
  widget set with at least one field kind outside the allow-list, the whole hook
  declaration is dropped: \<open>_add_hook\<close> logs one warning naming an offending kind of the
  set and changes nothing else, so no widget, no field-behaviour document and no hook
  record is registered for it, and the declarations processed after it start from
  tables this hook has not touched.
\<close>

theorem unsupported_field_drops_hook:
  assumes "fst (sanity_check E pkg h m)" and "h \<notin> keys (hooks_dict m)"
    and "rsplit_dot h = Some (mo, c)" and "import_class E mo c = Inr cls"
    and "get_connection_form_widgets cls = Some (Inr ws)"
    and "\<exists>w \<in> set ws. field_class (snd w) \<notin> set ALLOWED_FIELD_CLASSES"
  shows "\<exists>k. k \<in> field_class ` snd ` set ws \<and> k \<notin> set ALLOWED_FIELD_CLASSES \<and>
     add_hook E h pkg m = emit (Warning (UnsupportedFieldClass h k)) m"
proof -
  let ?bad = "filter (\<lambda>w. field_class w \<notin> set ALLOWED_FIELD_CLASSES) (map snd ws)"
  from assms(6) have "?bad \<noteq> []"
    by (auto simp: filter_empty_conv)
  then obtain w rest where b: "?bad = w # rest"
    by (cases ?bad) auto
  then have "w \<in> set ?bad"
    by simp
  then have w: "w \<in> snd ` set ws" "field_class w \<notin> set ALLOWED_FIELD_CLASSES"
    by auto
  from assms(6) have "ws \<noteq> []"
    by auto
  with assms(3-5) b
  have "add_hook_try E h pkg m = (Return, emit (Warning (UnsupportedFieldClass h (field_class w))) m)"
    by (simp add: add_hook_try_def)
  with assms(1,2) have "add_hook E h pkg m = emit (Warning (UnsupportedFieldClass h (field_class w))) m"
    by (simp add: add_hook_def sanity_check_True)
  with w show ?thesis
    by blast
qed

theorem unsupported_field_drops_hook_witness:
  "fst (sanity_check unsupported_env ''acme'' ''acme.hooks.svc.SvcHook'' init) \<and>
   ''acme.hooks.svc.SvcHook'' \<notin> keys (hooks_dict init) \<and>
   rsplit_dot ''acme.hooks.svc.SvcHook'' = Some (''acme.hooks.svc'', ''SvcHook'') \<and>
   (\<exists>k. k \<notin> set ALLOWED_FIELD_CLASSES \<and>
      add_hook unsupported_env ''acme.hooks.svc.SvcHook'' ''acme'' init =
        emit (Warning (UnsupportedFieldClass ''acme.hooks.svc.SvcHook'' k)) init)"
proof -
  let ?ws = "[(''extra__svc__id'', Field StringField ''Id''),
        (''extra__svc__token'', Field (OtherField ''DateField'') ''Token'')]"
  have 1: "fst (sanity_check unsupported_env ''acme'' ''acme.hooks.svc.SvcHook'' init)"
    by (simp add: sanity_check_def unsupported_env_def bare_env_def startswith_def)
  have 2: "''acme.hooks.svc.SvcHook'' \<notin> keys (hooks_dict init)"
    by (simp add: init_def keys_def)
  have 3: "rsplit_dot ''acme.hooks.svc.SvcHook'' = Some (''acme.hooks.svc'', ''SvcHook'')"
    by (simp add: rsplit_dot_def)
  have 4: "import_class unsupported_env ''acme.hooks.svc'' ''SvcHook'' = Inr (hook_of ''SvcHook'' ''svc'' ?ws)"
    by (simp add: unsupported_env_def bare_env_def)
  have 5: "get_connection_form_widgets (hook_of ''SvcHook'' ''svc'' ?ws) = Some (Inr ?ws)"
    by (simp add: hook_of_def)
  have 6: "\<exists>w \<in> set ?ws. field_class (snd w) \<notin> set ALLOWED_FIELD_CLASSES"
    by (simp add: ALLOWED_FIELD_CLASSES_def)
  show ?thesis
    using 1 2 3 unsupported_field_drops_hook [OF 1 2 3 4 5 6]
    by blast
qed

subsection \<open>In-source declarations against installed ones\<close>

text \<open>
  C3 as stated is about two manifests declaring the same \<open>package-name\<close>, one found by
  each scan. The in-source scan does not key a descriptor by its \<open>package-name\<close> field but
  by the name derived from its directory. With an in-source descriptor in directory \<open>a\<close>
  whose manifest declares \<open>package-name: foo\<close> and an installed distribution \<open>foo\<close> whose
  manifest declares the same, the table keeps both, and \<open>foo\<close> is mapped to the installed
  record.
\<close>

theorem same_package_name_counterexample:
  "package_name source_manifest = Some ''foo'' \<and> package_name installed_manifest = Some ''foo'' \<and>
   fst (access shadow_env providers init) =
     Inr (Providers [(''apache-airflow-providers-a'', ProviderInfo ''1.0.0'' source_manifest),
                     (''foo'', ProviderInfo ''2.0.0'' installed_manifest)])"
  by (simp add: run_simps shadow_simps)

text \<open>
  C3, amended. For every name under which the in-source scan has registered a record (the
  fixed prefix followed by the hyphen-joined directory path; the manifest's own
  \<open>package-name\<close> plays no part), the provider table after discovery holds exactly one
  record under that name and it is the in-source one, whatever the installed
  distributions declare and whether or not the installed-package scan ends in an error:
  the in-source scan runs first and a key already present is never overwritten.
\<close>

theorem in_source_record_wins:
  assumes "map_of (provider_dict (discover_all_airflow_builtin_providers_from_local_sources E init)) k = Some p"
  shows "filter (\<lambda>e. fst e = k) (provider_dict (snd (initialize_providers_list E init))) = [(k, p)]"
proof -
  let ?m0 = "emit (Debug (Initializing ''list'')) init"
  let ?ms = "discover_all_airflow_builtin_providers_from_local_sources E ?m0"
  let ?mp = "snd (discover_all_providers_from_packages E ?ms)"
  have d0: "provider_dict ?ms =
      provider_dict (discover_all_airflow_builtin_providers_from_local_sources E init)"
    by (rule local_sources_emit)
  have c: "''list'' \<notin> keys (initialized_cache init)"
    by (simp add: init_def keys_def)
  have "extends (from_source E) (provider_dict ?m0) (provider_dict ?ms)"
    by (rule local_sources_extends)
  then have s: "extends (from_source E) [] (provider_dict ?ms)"
    by (simp add: emit_def init_def)
  have p: "extends (from_package (entry_points_with_dist E)) (provider_dict ?ms) (provider_dict ?mp)"
    unfolding discover_all_providers_from_packages_def
    by (rule packages_loop_extends) simp
  have "distinct (map fst (provider_dict ?ms))"
    using s by (rule extends_distinct) simp
  with p have "distinct (map fst (provider_dict ?mp))"
    by (rule extends_distinct)
  then have dist: "distinct (map fst (provider_dict (snd (initialize_providers_list E init))))"
    using c by (simp add: list_result_distinct)
  from assms have "(k, p) \<in> set (provider_dict ?ms)"
    by (simp add: d0 map_of_SomeD)
  with p have "(k, p) \<in> set (provider_dict ?mp)"
    by (rule extends_keeps)
  then have "(k, p) \<in> set (provider_dict (snd (initialize_providers_list E init)))"
    using c by (simp add: list_result_set)
  with dist show ?thesis
    by (rule filter_key_distinct)
qed

theorem in_source_record_wins_witness:
  "map_of (provider_dict (discover_all_airflow_builtin_providers_from_local_sources shadow_env init))
     ''apache-airflow-providers-a'' = Some (ProviderInfo ''1.0.0'' source_manifest) \<and>
   metadata_name (entry_points_with_dist shadow_env ! 1) = ''apache-airflow-providers-a'' \<and>
   filter (\<lambda>e. fst e = ''apache-airflow-providers-a'')
     (provider_dict (snd (initialize_providers_list shadow_env init))) =
     [(''apache-airflow-providers-a'', ProviderInfo ''1.0.0'' source_manifest)]"
proof -
  have 1: "map_of (provider_dict (discover_all_airflow_builtin_providers_from_local_sources shadow_env init))
     ''apache-airflow-providers-a'' = Some (ProviderInfo ''1.0.0'' source_manifest)"
    by (simp add: shadow_local)
  have 2: "metadata_name (entry_points_with_dist shadow_env ! 1) = ''apache-airflow-providers-a''"
    by (simp add: shadow_env_def bare_env_def)
  show ?thesis
    using 1 2 in_source_record_wins [OF 1] by simp
qed

subsection \<open>What is fatal in discovery\<close>

text \<open>
  C4 as stated makes the name mismatch the one fatal condition and has every other
  per-provider failure, a schema violation among them, logged and skipped. In the
  installed-package scan a schema violation is raised by \<open>validate\<close> with no handler
  around it: with a first distribution whose manifest violates the schema, the
  \<open>providers\<close> accessor raises, nothing is logged as a warning, and the second, valid
  distribution is never registered.
\<close>

theorem invalid_manifest_counterexample:
  "access invalid_manifest_env providers init =
     (Inl ValidationError,
      init\<lparr>log := [Debug (Initializing ''list''), Debug (LoadingFromPackage ''acme'')]\<rparr>)"
  by (simp add: run_simps invalid_manifest_env_def bare_env_def no_manifest_def)

text \<open>
  C4, amended. In the installed-package scan, for every distribution that the scan
  reaches and that is not already in the provider table, discovery raises a hard error
  that propagates through the \<open>providers\<close> accessor and aborts the whole discovery call
  (no later distribution is processed, the table is not sorted and the \<open>list\<close> flag is not
  set) when its declared name differs from its manifest's \<open>package-name\<close>, and equally
  when its entry point fails to load, its manifest violates the schema or has no
  \<open>package-name\<close>. In the in-source scan every per-provider failure (read or parse error,
  schema violation, missing version, duplicate name) is logged as a warning and only
  that provider is skipped.
\<close>

theorem package_failure_aborts_discovery:
  assumes "''list'' \<notin> keys (initialized_cache m)"
    and "entry_points_with_dist E = before @ dist # rest"
    and "discover_packages_loop E before
           (discover_all_airflow_builtin_providers_from_local_sources E
              (emit (Debug (Initializing ''list'')) m)) = (None, m1)"
    and "metadata_name dist \<notin> keys (provider_dict m1)"
    and "\<forall>info. load dist = Inr info \<and> provider_schema_valid E info \<longrightarrow>
           package_name info \<noteq> Some (metadata_name dist)"
  shows "access E providers m =
      (Inl (case load dist of
              Inl e \<Rightarrow> e
            | Inr info \<Rightarrow>
                if \<not> provider_schema_valid E info then ValidationError
                else (case package_name info of
                        None \<Rightarrow> KeyError ''package-name''
                      | Some n \<Rightarrow> PackageMismatch (metadata_name dist) n)),
       emit (Debug (LoadingFromPackage (metadata_name dist))) m1) \<and>
    (\<forall>path pkg m'.
       (\<forall>info v vs. safe_load E path = Inr info \<and> provider_schema_valid E info \<and>
           versions info = Some (v # vs) \<longrightarrow> pkg \<in> keys (provider_dict m')) \<longrightarrow>
       (\<exists>w. add_provider_info_from_local_source_file E path pkg m' =
          emit (Warning w) (emit (Debug (LoadingFromPath pkg path)) m')))"
proof -
  let ?e = "case load dist of
              Inl e \<Rightarrow> e
            | Inr info \<Rightarrow>
                if \<not> provider_schema_valid E info then ValidationError
                else (case package_name info of
                        None \<Rightarrow> KeyError ''package-name''
                      | Some n \<Rightarrow> PackageMismatch (metadata_name dist) n)"
  let ?m2 = "emit (Debug (LoadingFromPackage (metadata_name dist))) m1"
  have "map_of (provider_dict m1) (metadata_name dist) = None"
    using assms(4) by (simp add: keys_def map_of_eq_None_iff)
  with assms(5) have "discover_provider_from_package E dist m1 = (Some ?e, ?m2)"
    unfolding discover_provider_from_package_def Let_def
    by (auto split: sum.splits option.splits)
  then have "discover_packages_loop E (dist # rest) m1 = (Some ?e, ?m2)"
    by simp
  with assms(2,3) have "discover_all_providers_from_packages E
      (discover_all_airflow_builtin_providers_from_local_sources E
         (emit (Debug (Initializing ''list'')) m)) = (Some ?e, ?m2)"
    by (simp add: discover_all_providers_from_packages_def packages_loop_append)
  with assms(1) have "initialize_providers_list E m = (Some ?e, ?m2)"
    by (simp add: initialize_providers_list_def provider_info_cache_def)
  then have "access E providers m = (Inl ?e, ?m2)"
    by (simp add: returning_def)
  then show ?thesis
    using local_file_failure by blast
qed

theorem package_failure_aborts_discovery_witness:
  "''list'' \<notin> keys (initialized_cache init) \<and>
   entry_points_with_dist mismatch_env = [acme_dist] @ renamed_dist # [omega_dist] \<and>
   metadata_name renamed_dist \<notin> keys (provider_dict after_acme) \<and>
   access mismatch_env providers init =
     (Inl (PackageMismatch ''zeta'' ''zeta-renamed''),
      emit (Debug (LoadingFromPackage ''zeta'')) after_acme)"
proof -
  have 1: "''list'' \<notin> keys (initialized_cache init)"
    by (simp add: init_def keys_def)
  have 2: "entry_points_with_dist mismatch_env = [acme_dist] @ renamed_dist # [omega_dist]"
    by (simp add: mismatch_env_def bare_env_def)
  have 3: "discover_packages_loop mismatch_env [acme_dist]
           (discover_all_airflow_builtin_providers_from_local_sources mismatch_env
              (emit (Debug (Initializing ''list'')) init)) = (None, after_acme)"
    by (simp add: run_simps mismatch_env_def bare_env_def acme_dist_def after_acme_def no_manifest_def)
  have 4: "metadata_name renamed_dist \<notin> keys (provider_dict after_acme)"
    by (simp add: renamed_dist_def after_acme_def keys_def)
  have 5: "\<forall>info. load renamed_dist = Inr info \<and> provider_schema_valid mismatch_env info \<longrightarrow>
           package_name info \<noteq> Some (metadata_name renamed_dist)"
    by (auto simp: renamed_dist_def no_manifest_def)
  have 6: "provider_schema_valid mismatch_env
      (no_manifest\<lparr>package_name := Some ''zeta-renamed'', versions := Some [''1.0'']\<rparr>)"
    by (simp add: mismatch_env_def bare_env_def no_manifest_def)
  show ?thesis
    using 1 2 4 conjunct1 [OF package_failure_aborts_discovery [OF 1 2 3 4 5]]
    by (simp add: renamed_dist_def 6)
qed

subsection \<open>Where the stored version comes from\<close>

text \<open>
  C10. Every record of the provider table after discovery from a fresh manager is of one
  of two kinds. If its key was registered by the in-source scan, its manifest is what a
  descriptor file loaded to and its version is the first entry of that manifest's
  \<open>versions\<close>. Otherwise it comes from an installed distribution of that name, its
  manifest is what the entry point returned and its version is the distribution's own
  version, whatever the manifest's \<open>versions\<close> say.
\<close>

theorem stored_version_by_source:
  assumes "(k, p) \<in> set (provider_dict (snd (initialize_providers_list E init)))"
  shows "if k \<in> keys (provider_dict (discover_all_airflow_builtin_providers_from_local_sources E init))
     then \<exists>path vs. safe_load E path = Inr (provider_info p) \<and>
            versions (provider_info p) = Some (version p # vs)
     else \<exists>dist \<in> set (entry_points_with_dist E). metadata_name dist = k \<and>
            load dist = Inr (provider_info p) \<and> version p = dist_version dist"
proof -
  let ?m0 = "emit (Debug (Initializing ''list'')) init"
  let ?ms = "discover_all_airflow_builtin_providers_from_local_sources E ?m0"
  let ?mp = "snd (discover_all_providers_from_packages E ?ms)"
  have d0: "provider_dict ?ms =
      provider_dict (discover_all_airflow_builtin_providers_from_local_sources E init)"
    by (rule local_sources_emit)
  have "''list'' \<notin> keys (initialized_cache init)"
    by (simp add: init_def keys_def)
  with assms have in_p: "(k, p) \<in> set (provider_dict ?mp)"
    by (simp add: list_result_set)
  have "extends (from_source E) (provider_dict ?m0) (provider_dict ?ms)"
    by (rule local_sources_extends)
  then have s: "extends (from_source E) [] (provider_dict ?ms)"
    by (simp add: emit_def init_def)
  have p: "extends (from_package (entry_points_with_dist E)) (provider_dict ?ms) (provider_dict ?mp)"
    unfolding discover_all_providers_from_packages_def
    by (rule packages_loop_extends) simp
  from extends_cases [OF p in_p]
  show ?thesis
  proof
    assume a: "(k, p) \<in> set (provider_dict ?ms)"
    then have "k \<in> keys (provider_dict ?ms)"
      by (force simp: keys_def)
    moreover from extends_cases [OF s a] have "from_source E (k, p)"
      by simp
    ultimately show ?thesis
      by (simp add: d0 from_source_def)
  next
    assume "fst (k, p) \<notin> keys (provider_dict ?ms) \<and> from_package (entry_points_with_dist E) (k, p)"
    then show ?thesis
      by (simp add: d0 from_package_def)
  qed
qed

theorem stored_version_by_source_witness:
  "(''foo'', ProviderInfo ''2.0.0'' installed_manifest) \<in>
     set (provider_dict (snd (initialize_providers_list shadow_env init))) \<and>
   ''foo'' \<notin> keys (provider_dict (discover_all_airflow_builtin_providers_from_local_sources shadow_env init)) \<and>
   versions installed_manifest = Some [''1.5.0''] \<and>
   (\<exists>dist \<in> set (entry_points_with_dist shadow_env). metadata_name dist = ''foo'' \<and>
      load dist = Inr installed_manifest \<and> dist_version dist = ''2.0.0'') \<and>
   (''apache-airflow-providers-a'', ProviderInfo ''1.0.0'' source_manifest) \<in>
     set (provider_dict (snd (initialize_providers_list shadow_env init))) \<and>
   (\<exists>path vs. safe_load shadow_env path = Inr source_manifest \<and>
      versions source_manifest = Some (''1.0.0'' # vs))"
proof -
  have 1: "(''foo'', ProviderInfo ''2.0.0'' installed_manifest) \<in>
     set (provider_dict (snd (initialize_providers_list shadow_env init)))"
    by (simp add: shadow_table)
  have 2: "(''apache-airflow-providers-a'', ProviderInfo ''1.0.0'' source_manifest) \<in>
     set (provider_dict (snd (initialize_providers_list shadow_env init)))"
    by (simp add: shadow_table)
  have 3: "''foo'' \<notin> keys (provider_dict
      (discover_all_airflow_builtin_providers_from_local_sources shadow_env init))"
    by (simp add: shadow_local keys_def)
  have 4: "''apache-airflow-providers-a'' \<in> keys (provider_dict
      (discover_all_airflow_builtin_providers_from_local_sources shadow_env init))"
    by (simp add: shadow_local keys_def)
  have 5: "versions installed_manifest = Some [''1.5.0'']"
    by (simp add: installed_manifest_def no_manifest_def)
  show ?thesis
    using 1 2 3 5 stored_version_by_source [OF 1] stored_version_by_source [OF 2]
    by (auto simp: 4)
qed

subsection \<open>One provider per descriptor directory\<close>



subsection \<open>Initialization at most once\<close>




subsection \<open>Enumeration order of the read surface\<close>

text \<open>
  C8. Whatever was read before and in whatever order discovery and extraction met the
  entries, a view that an accessor returns enumerates in lexicographic order of its
  keys: the provider, hook, widget and field-behaviour tables by key, the four name
  lists by name.
\<close>

theorem views_enumerate_in_key_order:
  assumes "fst (access E a (accesses earlier init)) = Inr v"
  shows "sorted (view_keys v)"
proof -
  have "settled init"
    by (simp add: settled_def init_def keys_def)
  then have "settled (accesses earlier init)"
    by (rule accesses_settled)
  with assms show ?thesis
    using access_settled by blast
qed

theorem views_enumerate_in_key_order_witness:
  "map metadata_name (entry_points_with_dist unordered_env) = [''zeta'', ''acme''] \<and>
   fst (access unordered_env hooks (accesses [(unordered_env, providers)] init)) =
     Inr (Hooks [(''AlphaHook'', HookInfo ''zeta.hooks.AlphaHook'' ''conn_id'' ''zeta'' ''AlphaHook''),
                 (''OmegaHook'', HookInfo ''acme.hooks.OmegaHook'' ''conn_id'' ''acme'' ''OmegaHook'')]) \<and>
   sorted (view_keys
     (Hooks [(''AlphaHook'', HookInfo ''zeta.hooks.AlphaHook'' ''conn_id'' ''zeta'' ''AlphaHook''),
             (''OmegaHook'', HookInfo ''acme.hooks.OmegaHook'' ''conn_id'' ''acme'' ''OmegaHook'')]))"
proof -
  have 0: "map metadata_name (entry_points_with_dist unordered_env) = [''zeta'', ''acme'']"
    by (simp add: unordered_env_def bare_env_def)
  have 1: "fst (access unordered_env hooks (accesses [(unordered_env, providers)] init)) =
     Inr (Hooks [(''AlphaHook'', HookInfo ''zeta.hooks.AlphaHook'' ''conn_id'' ''zeta'' ''AlphaHook''),
                 (''OmegaHook'', HookInfo ''acme.hooks.OmegaHook'' ''conn_id'' ''acme'' ''OmegaHook'')])"
    by (simp add: run_simps unordered_env_def bare_env_def no_manifest_def hook_of_def)
  show ?thesis
    by (intro conjI) (rule 0, rule 1, rule views_enumerate_in_key_order [OF 1])
qed

end
